theory Spec2Isabelle
  imports Complex_Main "HOL-Library.Sublist" "HOL-Library.Log_Nat"
begin

section \<open>Strings and message literals\<close>

text \<open>
  JavaScript strings are modelled by their UTF-8 byte sequences (\<^typ>\<open>string\<close>).  The empty
  string is the empty list, so the truthiness test of a string is \<open>s \<noteq> []\<close>, and a test
  for an ASCII suffix gives the same answer on the bytes as on the code units.

  The user-visible literals of the source are Korean; each constant below is the UTF-8
  encoding of the literal on the source line named beside it.
\<close>

definition MSG_NO_FILE :: string where
  \<comment> \<open>FileUpload.tsx line 94: no file has been selected\<close>
  "MSG_NO_FILE = [
     CHR 0xED, CHR 0x8C, CHR 0x8C, CHR 0xEC, CHR 0x9D, CHR 0xBC, CHR 0xEC, CHR 0x9D,
     CHR 0xB4, CHR 0x20, CHR 0xEC, CHR 0x84, CHR 0xA0, CHR 0xED, CHR 0x83, CHR 0x9D,
     CHR 0xEB, CHR 0x90, CHR 0x98, CHR 0xEC, CHR 0xA7, CHR 0x80, CHR 0x20, CHR 0xEC,
     CHR 0x95, CHR 0x8A, CHR 0xEC, CHR 0x95, CHR 0x98, CHR 0xEC, CHR 0x96, CHR 0xB4,
     CHR 0xEC, CHR 0x9A, CHR 0x94, CHR 0x2E]"

definition MSG_BAD_FORMAT :: string where
  \<comment> \<open>FileUpload.tsx line 96: the format is not allowed (.pdf, .docx)\<close>
  "MSG_BAD_FORMAT = [
     CHR 0xED, CHR 0x97, CHR 0x88, CHR 0xEC, CHR 0x9A, CHR 0xA9, CHR 0xEB, CHR 0x90,
     CHR 0x98, CHR 0xEC, CHR 0xA7, CHR 0x80, CHR 0x20, CHR 0xEC, CHR 0x95, CHR 0x8A,
     CHR 0xEB, CHR 0x8A, CHR 0x94, CHR 0x20, CHR 0xED, CHR 0x98, CHR 0x95, CHR 0xEC,
     CHR 0x8B, CHR 0x9D, CHR 0xEC, CHR 0x9E, CHR 0x85, CHR 0xEB, CHR 0x8B, CHR 0x88,
     CHR 0xEB, CHR 0x8B, CHR 0xA4, CHR 0x2E, CHR 0x20, CHR 0x28, CHR 0x2E, CHR 0x70,
     CHR 0x64, CHR 0x66, CHR 0x2C, CHR 0x20, CHR 0x2E, CHR 0x64, CHR 0x6F, CHR 0x63,
     CHR 0x78, CHR 0x29]"

definition MSG_TOO_LARGE :: string where
  \<comment> \<open>FileUpload.tsx line 97: the file is larger than 20MB\<close>
  "MSG_TOO_LARGE = [
     CHR 0xED, CHR 0x8C, CHR 0x8C, CHR 0xEC, CHR 0x9D, CHR 0xBC, CHR 0x20, CHR 0xEC,
     CHR 0x9A, CHR 0xA9, CHR 0xEB, CHR 0x9F, CHR 0x89, CHR 0xEC, CHR 0x9D, CHR 0xB4,
     CHR 0x20, CHR 0x32, CHR 0x30, CHR 0x4D, CHR 0x42, CHR 0xEB, CHR 0xA5, CHR 0xBC,
     CHR 0x20, CHR 0xEC, CHR 0xB4, CHR 0x88, CHR 0xEA, CHR 0xB3, CHR 0xBC, CHR 0xED,
     CHR 0x95, CHR 0xA9, CHR 0xEB, CHR 0x8B, CHR 0x88, CHR 0xEB, CHR 0x8B, CHR 0xA4,
     CHR 0x2E]"

definition MSG_NOT_READY :: string where
  \<comment> \<open>FileUpload.tsx line 156: text conversion is not complete yet, try again shortly\<close>
  "MSG_NOT_READY = [
     CHR 0xED, CHR 0x85, CHR 0x8D, CHR 0xEC, CHR 0x8A, CHR 0xA4, CHR 0xED, CHR 0x8A,
     CHR 0xB8, CHR 0x20, CHR 0xEB, CHR 0xB3, CHR 0x80, CHR 0xED, CHR 0x99, CHR 0x98,
     CHR 0xEC, CHR 0x9D, CHR 0xB4, CHR 0x20, CHR 0xEC, CHR 0x95, CHR 0x84, CHR 0xEC,
     CHR 0xA7, CHR 0x81, CHR 0x20, CHR 0xEC, CHR 0x99, CHR 0x84, CHR 0xEB, CHR 0xA3,
     CHR 0x8C, CHR 0xEB, CHR 0x90, CHR 0x98, CHR 0xEC, CHR 0xA7, CHR 0x80, CHR 0x20,
     CHR 0xEC, CHR 0x95, CHR 0x8A, CHR 0xEC, CHR 0x95, CHR 0x98, CHR 0xEC, CHR 0x96,
     CHR 0xB4, CHR 0xEC, CHR 0x9A, CHR 0x94, CHR 0x2E, CHR 0x20, CHR 0xEC, CHR 0x9E,
     CHR 0xA0, CHR 0xEC, CHR 0x8B, CHR 0x9C, CHR 0x20, CHR 0xED, CHR 0x9B, CHR 0x84,
     CHR 0x20, CHR 0xEB, CHR 0x8B, CHR 0xA4, CHR 0xEC, CHR 0x8B, CHR 0x9C, CHR 0x20,
     CHR 0xEC, CHR 0x8B, CHR 0x9C, CHR 0xEB, CHR 0x8F, CHR 0x84, CHR 0xED, CHR 0x95,
     CHR 0xB4, CHR 0xEC, CHR 0xA3, CHR 0xBC, CHR 0xEC, CHR 0x84, CHR 0xB8, CHR 0xEC,
     CHR 0x9A, CHR 0x94, CHR 0x2E]"

definition MSG_ANALYZING :: string where
  \<comment> \<open>FileUpload.tsx line 162: analysing\<close>
  "MSG_ANALYZING = [
     CHR 0xEB, CHR 0xB6, CHR 0x84, CHR 0xEC, CHR 0x84, CHR 0x9D, CHR 0x20, CHR 0xEC,
     CHR 0xA4, CHR 0x91, CHR 0xE2, CHR 0x80, CHR 0xA6]"

definition MSG_DONE :: string where
  \<comment> \<open>FileUpload.tsx line 171: the analysis is complete\<close>
  "MSG_DONE = [
     CHR 0xEB, CHR 0xB6, CHR 0x84, CHR 0xEC, CHR 0x84, CHR 0x9D, CHR 0xEC, CHR 0x9D,
     CHR 0xB4, CHR 0x20, CHR 0xEC, CHR 0x99, CHR 0x84, CHR 0xEB, CHR 0xA3, CHR 0x8C,
     CHR 0xEB, CHR 0x90, CHR 0x98, CHR 0xEC, CHR 0x97, CHR 0x88, CHR 0xEC, CHR 0x8A,
     CHR 0xB5, CHR 0xEB, CHR 0x8B, CHR 0x88, CHR 0xEB, CHR 0x8B, CHR 0xA4, CHR 0x2E]"

definition MSG_ERROR :: string where
  \<comment> \<open>FileUpload.tsx line 175: an error occurred during processing\<close>
  "MSG_ERROR = [
     CHR 0xEC, CHR 0xB2, CHR 0x98, CHR 0xEB, CHR 0xA6, CHR 0xAC, CHR 0x20, CHR 0xEC,
     CHR 0xA4, CHR 0x91, CHR 0x20, CHR 0xEC, CHR 0x98, CHR 0xA4, CHR 0xEB, CHR 0xA5,
     CHR 0x98, CHR 0xEA, CHR 0xB0, CHR 0x80, CHR 0x20, CHR 0xEB, CHR 0xB0, CHR 0x9C,
     CHR 0xEC, CHR 0x83, CHR 0x9D, CHR 0xED, CHR 0x96, CHR 0x88, CHR 0xEC, CHR 0x8A,
     CHR 0xB5, CHR 0xEB, CHR 0x8B, CHR 0x88, CHR 0xEB, CHR 0x8B, CHR 0xA4, CHR 0x2E]"

definition NO_RESPONSE :: string where
  \<comment> \<open>AnalyzeResult.tsx line 125: (no response)\<close>
  "NO_RESPONSE = [
     CHR 0x28, CHR 0xEC, CHR 0x9D, CHR 0x91, CHR 0xEB, CHR 0x8B, CHR 0xB5, CHR 0x20,
     CHR 0xEC, CHR 0x97, CHR 0x86, CHR 0xEC, CHR 0x9D, CHR 0x8C, CHR 0x29]"

text \<open>
  \<open>a ?? b\<close>: the left operand unless it is \<open>null\<close> or \<open>undefined\<close> (here \<open>None\<close>).
  An empty string or a zero on the left is kept.
\<close>

definition nullish :: "'a option \<Rightarrow> 'a \<Rightarrow> 'a" where
  "nullish a b = (case a of Some v \<Rightarrow> v | None \<Rightarrow> b)"

text \<open>
  \<open>String.prototype.toLowerCase\<close> on the bytes: the ASCII capitals move to their small
  letters, every other byte stays.  The source also maps capitals outside ASCII; none of
  them has a lower-case form with a character of \<open>.pdf\<close> or \<open>.docx\<close> in it, so
  the suffix tests of \<open>validate\<close> give the same answers as in the source.
\<close>

definition toLowerCase_char :: "char \<Rightarrow> char" where
  "toLowerCase_char c =
     (case map_of (zip ''ABCDEFGHIJKLMNOPQRSTUVWXYZ'' ''abcdefghijklmnopqrstuvwxyz'') c of
        Some l \<Rightarrow> l
      | None \<Rightarrow> c)"

definition toLowerCase :: "string \<Rightarrow> string" where
  "toLowerCase s = map toLowerCase_char s"

text \<open>\<open>s.endsWith(ext)\<close>.\<close>

definition endsWith :: "string \<Rightarrow> string \<Rightarrow> bool" where
  "endsWith s ext = suffix ext s"

section \<open>Validator (FileUpload.tsx, lines 8-9 and 93-99)\<close>

record File =
  name :: string
  size_bytes :: nat

definition ACCEPTED_EXT :: "string list" where
  "ACCEPTED_EXT = [''.pdf'', ''.docx'']"

definition MAX_BYTES :: nat where
  "MAX_BYTES = 20 * 1024 * 1024"

text \<open>The result is the rejection message; the empty string means that the file passed.\<close>

definition validate :: "File option \<Rightarrow> string" where
  "validate file =
     (case file of
        None \<Rightarrow> MSG_NO_FILE
      | Some f \<Rightarrow>
          (let lower = toLowerCase (name f) in
           if \<not> list_ex (\<lambda>ext. endsWith lower ext) ACCEPTED_EXT then MSG_BAD_FORMAT
           else if size_bytes f > MAX_BYTES then MSG_TOO_LARGE
           else []))"

text \<open>The extension test of \<open>validate\<close> (line 96), named for the statements below.\<close>

definition extensionAllowed :: "File \<Rightarrow> bool" where
  "extensionAllowed f = list_ex (\<lambda>ext. endsWith (toLowerCase (name f)) ext) ACCEPTED_EXT"

section \<open>Response normaliser (AnalyzeResult.tsx)\<close>

text \<open>
  JSON numbers are modelled as reals.  An optional field is an \<open>option\<close>: \<open>None\<close> stands
  for a field that is missing or \<open>null\<close>, the two values that \<open>??\<close> and \<open>?.\<close> treat alike.
\<close>

datatype MetricKey = CP | RI | FP | ETS | IO | RM

text \<open>The literal of each key, as it is written in the source.\<close>

fun keyName :: "MetricKey \<Rightarrow> string" where
  "keyName CP = ''CP''"
| "keyName RI = ''RI''"
| "keyName FP = ''FP''"
| "keyName ETS = ''ETS''"
| "keyName IO = ''IO''"
| "keyName RM = ''RM''"

record RadarItem =
  axis :: string
  val :: real  \<comment> \<open>the field \<open>value\<close> of the source\<close>

record MetricEntry =
  metric :: "string option"
  score_10 :: "real option"
  feedback :: "string option"
  raw :: "string option"

text \<open>
  The fields of \<open>AnalyzeResponse\<close> that the functions below read.  The remaining fields of
  the source type (\<open>rfpId\<close>, \<open>proposalId\<close>, \<open>rfpSummary\<close>, \<open>matchRate\<close>, \<open>ivi\<close>,
  the legacy \<open>feedback\<close> lines, \<open>decision\<close>, \<open>similarity\<close>, \<open>guideReview\<close>) are only
  rendered.
\<close>

record AnalyzeResponse =
  radar :: "RadarItem list option"
  metrics :: "(MetricKey \<Rightarrow> MetricEntry option) option"
  metricsScores :: "(MetricKey \<Rightarrow> real option) option"
  metricsTotal10 :: "real option"

text \<open>AnalyzeResult.tsx, lines 34-44.\<close>

definition toRadarFromSix :: "(MetricKey \<Rightarrow> real option) option \<Rightarrow> RadarItem list" where
  "toRadarFromSix scores =
     (case scores of
        None \<Rightarrow> []
      | Some s \<Rightarrow>
          [\<lparr>axis = ''CP'', val = nullish (s CP) 0\<rparr>,
           \<lparr>axis = ''RI'', val = nullish (s RI) 0\<rparr>,
           \<lparr>axis = ''FP'', val = nullish (s FP) 0\<rparr>,
           \<lparr>axis = ''ETS'', val = nullish (s ETS) 0\<rparr>,
           \<lparr>axis = ''IO'', val = nullish (s IO) 0\<rparr>,
           \<lparr>axis = ''RM'', val = nullish (s RM) 0\<rparr>])"

text \<open>AnalyzeResult.tsx, lines 48 and 50: \<open>six ? toRadarFromSix(six) : data.radar ?? []\<close>.\<close>

definition radarData :: "AnalyzeResponse \<Rightarrow> RadarItem list" where
  "radarData data =
     (case metricsScores data of
        Some six \<Rightarrow> toRadarFromSix (Some six)
      | None \<Rightarrow> nullish (radar data) [])"

text \<open>AnalyzeResult.tsx, line 119: the keys in the order in which the details are listed.\<close>

definition METRIC_KEYS :: "MetricKey list" where
  "METRIC_KEYS = [CP, RI, FP, ETS, IO, RM]"

text \<open>
  AnalyzeResult.tsx, line 125:
  \<open>data.metrics?.[k]?.feedback ?? data.metrics?.[k]?.raw ?? "(no response)"\<close>.
\<close>

definition metricField :: "AnalyzeResponse \<Rightarrow> MetricKey \<Rightarrow> (MetricEntry \<Rightarrow> 'a option) \<Rightarrow> 'a option" where
  "metricField data k fld =
     (case metrics data of
        None \<Rightarrow> None
      | Some m \<Rightarrow> (case m k of None \<Rightarrow> None | Some e \<Rightarrow> fld e))"

definition feedbackText :: "AnalyzeResponse \<Rightarrow> MetricKey \<Rightarrow> string" where
  "feedbackText data k =
     nullish (metricField data k feedback) (nullish (metricField data k raw) NO_RESPONSE)"

section \<open>Uploader (FileUpload.tsx, lines 25-28 and 106-139)\<close>

text \<open>\<open>name.lastIndexOf(".")\<close>: the last position of the character, or \<open>-1\<close>.\<close>

definition lastIndexOf :: "string \<Rightarrow> char \<Rightarrow> int" where
  "lastIndexOf s c =
     (case filter (\<lambda>i. s ! i = c) (rev [0..<length s]) of
        [] \<Rightarrow> - 1
      | i # _ \<Rightarrow> int i)"

definition stripExt :: "string \<Rightarrow> string" where
  "stripExt nm = (let i = lastIndexOf nm (CHR ''.'') in if i > 0 then take (nat i) nm else nm)"

datatype DocType = RFP | Proposal

record UploadResponse =
  ok :: bool
  ready :: "bool option"
  docID :: string
  storeAs :: string
  txtPath :: "string option"
  message_u :: "string option"  \<comment> \<open>the field \<open>message\<close> of the source\<close>

text \<open>The multipart body of \<open>POST /upload\<close>.\<close>

record UploadRequest =
  fd_file :: File
  fd_title :: string
  fd_docType :: DocType

text \<open>The JSON body of \<open>POST /evaluate/instant\<close>.\<close>

record EvalRequest =
  proposalPath :: "string option"
  rfpPath :: "string option"
  guidePath :: string

record AxiosProgressEvent =
  loaded :: "int option"
  total :: "int option"

text \<open>
  An awaited request either resolves with the response body, an object of the declared
  type, or rejects; \<open>Rejected d\<close> carries \<open>e?.response?.data?.detail\<close>, which is
  \<open>None\<close> when the error has no response, no body or no detail.
\<close>

datatype 'a Outcome = Rejected "string option" | Resolved 'a

text \<open>
  The remote service: what it answers to each request, and for an upload the progress
  events that the transport delivers before the request settles.
\<close>

record Network =
  upload :: "UploadRequest \<Rightarrow> AxiosProgressEvent list \<times> UploadResponse Outcome"
  evaluate :: "EvalRequest \<Rightarrow> AnalyzeResponse Outcome"

text \<open>
  What a handler does, in the order in which it does it: the calls of the state setters
  and the requests sent and settled.
\<close>

datatype Effect =
    SetProgress int
  | SetIsProcessing bool
  | SetMessage string
  | SetResult "AnalyzeResponse option"
  | PostUpload UploadRequest
  | UploadSettled DocType
  | PostEvaluate EvalRequest
  | EvaluateSettled

text \<open>
  JavaScript numbers are IEEE doubles: every arithmetic operation yields the double nearest
  to the exact result, a tie going to the double with the even significand.  \<open>rne p q\<close>
  is the integer nearest to \<open>p / q\<close> (for \<open>q > 0\<close>), ties to even.
\<close>

definition rne :: "int \<Rightarrow> int \<Rightarrow> int" where
  "rne p q =
     (let f = p div q; r = p mod q in
      if 2 * r < q then f else if q < 2 * r then f + 1 else if even f then f else f + 1)"

text \<open>The exponent \<open>e\<close> with \<open>2 ^ e \<le> a / d < 2 ^ (e + 1)\<close>, for positive \<open>a\<close> and \<open>d\<close>.\<close>

definition binade :: "int \<Rightarrow> int \<Rightarrow> int" where
  "binade a d =
     (let k = bitlen a - bitlen d in
      if (if 0 \<le> k then 2 ^ nat k * d \<le> a else d \<le> 2 ^ nat (- k) * a) then k else k - 1)"

text \<open>
  The double nearest to \<open>n / d\<close> (for \<open>d > 0\<close>): the quotient is scaled into the range
  from \<open>2 ^ 52\<close> to \<open>2 ^ 53\<close>, rounded to an integer and scaled back, which leaves a
  significand of 53 bits.  The range of the exponent of a double is not modelled; the
  numbers of this component come from byte counts and lie far inside it.
\<close>

definition dblRatio :: "int \<Rightarrow> int \<Rightarrow> real" where
  "dblRatio n d =
     (if n = 0 then 0
      else
        let a = \<bar>n\<bar>; e = binade a d in
        if e \<le> 52
        then of_int (sgn n * rne (a * 2 ^ nat (52 - e)) d) / 2 ^ nat (52 - e)
        else of_int (sgn n * rne a (d * 2 ^ nat (e - 52))) * 2 ^ nat (e - 52))"

text \<open>
  The operations of lines 132 and 134 on integer-valued doubles: \<open>a * b\<close> and \<open>a + b\<close>
  (the double nearest to an integer is an integer), \<open>a / b\<close> for \<open>b \<noteq> 0\<close>, and
  \<open>x * 0.4\<close>, where the literal \<open>0.4\<close> denotes the double \<open>POINT_FOUR\<close>, a little
  above two fifths.
\<close>

definition dbl_mul :: "int \<Rightarrow> int \<Rightarrow> int" where
  "dbl_mul a b = \<lfloor>dblRatio (a * b) 1\<rfloor>"

definition dbl_add :: "int \<Rightarrow> int \<Rightarrow> int" where
  "dbl_add a b = \<lfloor>dblRatio (a + b) 1\<rfloor>"

definition dbl_div :: "int \<Rightarrow> int \<Rightarrow> real" where
  "dbl_div a b = dblRatio (a * sgn b) \<bar>b\<bar>"

definition POINT_FOUR :: real where
  "POINT_FOUR = 3602879701896397 / 9007199254740992"

definition dbl_mul_POINT_FOUR :: "int \<Rightarrow> real" where
  "dbl_mul_POINT_FOUR x = dblRatio (x * 3602879701896397) 9007199254740992"

text \<open>
  \<open>Math.round\<close> gives the integer nearest to a double, a half going upwards;
  \<open>Math.floor\<close> rounds a double down.  Both are exact.
\<close>

definition Math_round :: "real \<Rightarrow> int" where
  "Math_round x = \<lfloor>x + 1 / 2\<rfloor>"

definition Math_floor :: "real \<Rightarrow> int" where
  "Math_floor x = \<lfloor>x\<rfloor>"

text \<open>
  FileUpload.tsx, lines 129-135.  The byte counts \<open>loaded\<close> and \<open>total\<close> of an event
  are integer-valued doubles.
\<close>

definition onUploadProgress :: "int \<Rightarrow> AxiosProgressEvent \<Rightarrow> Effect list" where
  "onUploadProgress progressOffset evt =
     (let t = nullish (total evt) 0 in
      if t = 0 then []
      else
        let pct = Math_round (dbl_div (dbl_mul (nullish (loaded evt) 0) 100) t)
        in [SetProgress (dbl_add progressOffset (Math_floor (dbl_mul_POINT_FOUR pct)))])"

text \<open>
  The progress value as the specification words it, without the rounding of the
  percentage: \<open>offset + floor((loaded / total * 100) * 0.4)\<close>.  It is compared with
  \<open>onUploadProgress\<close> below.
\<close>

definition specProgress :: "int \<Rightarrow> int \<Rightarrow> int \<Rightarrow> int" where
  "specProgress progressOffset l t =
     progressOffset + \<lfloor>(of_int l / of_int t * 100) * (4 / 10 :: real)\<rfloor>"

text \<open>FileUpload.tsx, lines 117-139.\<close>

definition uploadOne :: "Network \<Rightarrow> File \<Rightarrow> DocType \<Rightarrow> int \<Rightarrow> Effect list \<times> UploadResponse Outcome" where
  "uploadOne net file docType progressOffset =
     (let fd = \<lparr>fd_file = file, fd_title = stripExt (name file), fd_docType = docType\<rparr>;
          (events, res) = upload net fd
      in (PostUpload fd # concat (map (onUploadProgress progressOffset) events)
            @ [UploadSettled docType],
          res))"

section \<open>Orchestrator (FileUpload.tsx, lines 82-104 and 142-179)\<close>

text \<open>The eight pieces of view state of the component, with their initial values.\<close>

record State =
  rfp :: "File option"
  proposal :: "File option"
  errRfp :: string
  errProp :: string
  progress :: int
  isProcessing :: bool
  message :: string
  result :: "AnalyzeResponse option"

definition initialState :: State where
  "initialState =
     \<lparr>rfp = None, proposal = None, errRfp = [], errProp = [],
      progress = 0, isProcessing = False, message = [], result = None\<rparr>"

text \<open>FileUpload.tsx, lines 101-102.  A string is truthy when it is not empty.\<close>

definition onSelectRfp :: "File option \<Rightarrow> State \<Rightarrow> State" where
  "onSelectRfp f st =
     (let st1 = st\<lparr>errRfp := []\<rparr> in
      case f of
        None \<Rightarrow> st1\<lparr>rfp := None\<rparr>
      | Some _ \<Rightarrow>
          (let v = validate f in
           if v \<noteq> [] then st1\<lparr>errRfp := v, rfp := None\<rparr> else st1\<lparr>rfp := f\<rparr>))"

definition onSelectProp :: "File option \<Rightarrow> State \<Rightarrow> State" where
  "onSelectProp f st =
     (let st1 = st\<lparr>errProp := []\<rparr> in
      case f of
        None \<Rightarrow> st1\<lparr>proposal := None\<rparr>
      | Some _ \<Rightarrow>
          (let v = validate f in
           if v \<noteq> [] then st1\<lparr>errProp := v, proposal := None\<rparr> else st1\<lparr>proposal := f\<rparr>))"

text \<open>FileUpload.tsx, line 104.\<close>

definition canProcess :: "State \<Rightarrow> bool" where
  "canProcess st = (rfp st \<noteq> None \<and> proposal st \<noteq> None \<and> \<not> isProcessing st)"

text \<open>\<open>!x\<close> for an optional string: true when it is missing or empty.\<close>

definition falsy :: "string option \<Rightarrow> bool" where
  "falsy x = (case x of None \<Rightarrow> True | Some t \<Rightarrow> t = [])"

definition GUIDE_PATH :: string where
  "GUIDE_PATH = ''guide/guide_reference.txt''"

text \<open>How the \<open>try\<close> block ends: at its end or at a \<open>return\<close>, or with a thrown error.\<close>

datatype Completion = Returned | Thrown "string option"

text \<open>FileUpload.tsx, lines 149-172: the \<open>try\<close> block.\<close>

definition tryBlock :: "Network \<Rightarrow> File \<Rightarrow> File \<Rightarrow> Effect list \<times> Completion" where
  "tryBlock net r p =
     (case uploadOne net r RFP 0 of
        (es1, Rejected d) \<Rightarrow> (es1, Thrown d)
      | (es1, Resolved rfpUp) \<Rightarrow>
          (case uploadOne net p Proposal 40 of
             (es2, Rejected d) \<Rightarrow> (es1 @ es2, Thrown d)
           | (es2, Resolved propUp) \<Rightarrow>
               (if falsy (txtPath rfpUp) \<or> falsy (txtPath propUp)
                then (es1 @ es2 @ [SetMessage MSG_NOT_READY], Returned)
                else
                  let body = \<lparr>proposalPath = txtPath propUp, rfpPath = txtPath rfpUp,
                              guidePath = GUIDE_PATH\<rparr>;
                      es3 = es1 @ es2 @ [SetProgress 80, SetMessage MSG_ANALYZING,
                                         PostEvaluate body, EvaluateSettled]
                  in (case evaluate net body of
                        Rejected d \<Rightarrow> (es3, Thrown d)
                      | Resolved data \<Rightarrow>
                          (es3 @ [SetResult (Some data), SetMessage MSG_DONE, SetProgress 100],
                           Returned)))))"

text \<open>FileUpload.tsx, lines 173-175: the \<open>catch\<close> clause.\<close>

definition catchBlock :: "Completion \<Rightarrow> Effect list" where
  "catchBlock c =
     (case c of
        Returned \<Rightarrow> []
      | Thrown detail \<Rightarrow> [SetMessage (nullish detail MSG_ERROR)])"

text \<open>FileUpload.tsx, lines 176-178: the \<open>finally\<close> clause.\<close>

definition finallyBlock :: "Effect list" where
  "finallyBlock = [SetIsProcessing False]"

text \<open>FileUpload.tsx, lines 144-147: the four setter calls before the \<open>try\<close> block.\<close>

definition startBlock :: "Effect list" where
  "startBlock = [SetResult None, SetMessage [], SetIsProcessing True, SetProgress 0]"

text \<open>
  FileUpload.tsx, lines 142-179.  The handler reads \<open>rfp\<close> and \<open>proposal\<close> from the state
  in which it was called; without both files it returns before doing anything.
\<close>

definition onProcess :: "Network \<Rightarrow> State \<Rightarrow> Effect list" where
  "onProcess net st =
     (case (rfp st, proposal st) of
        (Some r, Some p) \<Rightarrow>
          (let (es, c) = tryBlock net r p in
           startBlock @ es @ catchBlock c @ finallyBlock)
      | _ \<Rightarrow> [])"

text \<open>The state after an effect; a request changes no view state.\<close>

fun applyEffect :: "State \<Rightarrow> Effect \<Rightarrow> State" where
  "applyEffect st (SetProgress n) = st\<lparr>progress := n\<rparr>"
| "applyEffect st (SetIsProcessing b) = st\<lparr>isProcessing := b\<rparr>"
| "applyEffect st (SetMessage m) = st\<lparr>message := m\<rparr>"
| "applyEffect st (SetResult r) = st\<lparr>result := r\<rparr>"
| "applyEffect st (PostUpload _) = st"
| "applyEffect st (UploadSettled _) = st"
| "applyEffect st (PostEvaluate _) = st"
| "applyEffect st EvaluateSettled = st"

definition applyEffects :: "State \<Rightarrow> Effect list \<Rightarrow> State" where
  "applyEffects st es = foldl applyEffect st es"

text \<open>The state in which a whole run of \<open>onProcess\<close> leaves the component.\<close>

definition runProcess :: "Network \<Rightarrow> State \<Rightarrow> State" where
  "runProcess net st = applyEffects st (onProcess net st)"

text \<open>The requests among the effects, in their order.\<close>

fun isRequest :: "Effect \<Rightarrow> bool" where
  "isRequest (PostUpload _) = True"
| "isRequest (UploadSettled _) = True"
| "isRequest (PostEvaluate _) = True"
| "isRequest EvaluateSettled = True"
| "isRequest _ = False"

fun isEvaluate :: "Effect \<Rightarrow> bool" where
  "isEvaluate (PostEvaluate _) = True"
| "isEvaluate _ = False"

text \<open>
  The states of the component: the initial one, those after a selection in either drop
  zone, and those that a run of \<open>onProcess\<close> passes through (after any number of its
  effects).  Selections are possible while a run is in flight; they set other fields than
  the run does.
\<close>

inductive reachable :: "State \<Rightarrow> bool" where
  reach_init: "reachable initialState"
| reach_selectRfp: "reachable st \<Longrightarrow> reachable (onSelectRfp f st)"
| reach_selectProp: "reachable st \<Longrightarrow> reachable (onSelectProp f st)"
| reach_process: "reachable st \<Longrightarrow> reachable (applyEffects st (take n (onProcess net st)))"

text \<open>A slot of the component holds no file or a file that \<open>validate\<close> lets pass.\<close>

definition slotValid :: "File option \<Rightarrow> bool" where
  "slotValid slot = (case slot of None \<Rightarrow> True | Some f \<Rightarrow> validate (Some f) = [])"

text \<open>Effects that leave the message, the busy flag and the result alone.\<close>

fun progressOnly :: "Effect \<Rightarrow> bool" where
  "progressOnly (SetProgress _) = True"
| "progressOnly (PostUpload _) = True"
| "progressOnly (UploadSettled _) = True"
| "progressOnly _ = False"

section \<open>Example inputs\<close>

text \<open>The six scores of the example in the specification, and a legacy radar array.\<close>

definition specValues :: "MetricKey \<Rightarrow> real" where
  "specValues k = (case k of CP \<Rightarrow> 8 | RI \<Rightarrow> 7 | FP \<Rightarrow> 6 | ETS \<Rightarrow> 9 | IO \<Rightarrow> 5 | RM \<Rightarrow> 7)"

definition specScores :: "MetricKey \<Rightarrow> real option" where
  "specScores k = Some (specValues k)"

definition legacyRadar :: "RadarItem list" where
  "legacyRadar = [\<lparr>axis = ''planning'', val = 3\<rparr>, \<lparr>axis = ''risk'', val = 4\<rparr>]"

definition exampleAnalysis :: AnalyzeResponse where
  "exampleAnalysis =
     \<lparr>radar = Some legacyRadar, metrics = None, metricsScores = Some specScores,
      metricsTotal10 = Some 7\<rparr>"

text \<open>Two small files, and the state after both have been selected.\<close>

definition exampleRfp :: File where
  "exampleRfp = \<lparr>name = ''rfp.pdf'', size_bytes = 1024\<rparr>"

definition exampleProposal :: File where
  "exampleProposal = \<lparr>name = ''draft.v2.DOCX'', size_bytes = 1024\<rparr>"

definition exampleState :: State where
  "exampleState =
     onSelectProp (Some exampleProposal) (onSelectRfp (Some exampleRfp) initialState)"

text \<open>
  Three services.  The first converts both uploads and evaluates them.  The second stores
  the proposal without a converted text.  The third refuses the second upload with a
  detail message.
\<close>

definition exampleUploadResponse :: "string option \<Rightarrow> UploadResponse" where
  "exampleUploadResponse t =
     \<lparr>ok = True, ready = Some (t \<noteq> None), docID = ''doc-1'', storeAs = ''uploads/doc-1'',
      txtPath = t, message_u = None\<rparr>"

definition exampleEvents :: "AxiosProgressEvent list" where
  "exampleEvents =
     [\<lparr>loaded = Some 512, total = Some 1024\<rparr>, \<lparr>loaded = Some 1024, total = Some 1024\<rparr>]"

definition exampleNetwork :: Network where
  "exampleNetwork =
     \<lparr>upload = (\<lambda>fd. (exampleEvents,
                       Resolved (exampleUploadResponse (Some (fd_title fd @ ''.extracted.txt''))))),
      evaluate = (\<lambda>body. Resolved exampleAnalysis)\<rparr>"

definition notReadyNetwork :: Network where
  "notReadyNetwork =
     \<lparr>upload = (\<lambda>fd. (exampleEvents,
                       Resolved (exampleUploadResponse
                         (if fd_docType fd = RFP then Some ''rfp.extracted.txt'' else None)))),
      evaluate = (\<lambda>body. Resolved exampleAnalysis)\<rparr>"

definition failingNetwork :: Network where
  "failingNetwork =
     \<lparr>upload = (\<lambda>fd. if fd_docType fd = RFP
                      then (exampleEvents, Resolved (exampleUploadResponse (Some ''rfp.extracted.txt'')))
                      else ([\<lparr>loaded = Some 512, total = Some 1024\<rparr>], Rejected (Some ''disk full''))),
      evaluate = (\<lambda>body. Resolved exampleAnalysis)\<rparr>"

text \<open>The state after a successful run: it holds a result.\<close>

definition finishedState :: State where
  "finishedState = runProcess exampleNetwork exampleState"

section \<open>Properties of the validator\<close>

lemma MSG_BAD_FORMAT_nonempty: "MSG_BAD_FORMAT \<noteq> []"
  by (simp add: MSG_BAD_FORMAT_def)

lemma MSG_TOO_LARGE_nonempty: "MSG_TOO_LARGE \<noteq> []"
  by (simp add: MSG_TOO_LARGE_def)

lemma NO_RESPONSE_nonempty: "NO_RESPONSE \<noteq> []"
  by (simp add: NO_RESPONSE_def)

lemma MSG_formats_differ: "MSG_BAD_FORMAT \<noteq> MSG_TOO_LARGE"
  by (simp add: MSG_BAD_FORMAT_def MSG_TOO_LARGE_def)

lemma validate_Some:
  "validate (Some f) =
     (if \<not> extensionAllowed f then MSG_BAD_FORMAT
      else if size_bytes f > MAX_BYTES then MSG_TOO_LARGE else [])"
  by (simp add: validate_def extensionAllowed_def Let_def)

lemma validate_accepts_iff:
  "validate (Some f) = [] \<longleftrightarrow> extensionAllowed f \<and> size_bytes f \<le> MAX_BYTES"
  by (auto simp: validate_Some MSG_BAD_FORMAT_nonempty MSG_TOO_LARGE_nonempty)

lemma extensionAllowed_Big_PDF:
  "extensionAllowed \<lparr>name = ''Big.PDF'', size_bytes = 20971521\<rparr>"
  by (simp add: extensionAllowed_def toLowerCase_def toLowerCase_char_def endsWith_def
      ACCEPTED_EXT_def suffix_to_prefix)

lemma extensionAllowed_big_txt:
  "\<not> extensionAllowed \<lparr>name = ''big.txt'', size_bytes = 20971521\<rparr>"
  by (simp add: extensionAllowed_def toLowerCase_def toLowerCase_char_def endsWith_def
      ACCEPTED_EXT_def suffix_to_prefix)

text \<open>
  C1 (as amended).  A file of more than \<open>20 * 1024 * 1024\<close> bytes is always rejected, but
  the extension rule is tested first: the rejection is the size-limit message when the
  lower-cased name ends in \<open>.pdf\<close> or \<open>.docx\<close>, and the unsupported-format message
  otherwise.
\<close>

theorem validate_oversized:
  "size_bytes f > MAX_BYTES \<Longrightarrow>
     validate (Some f) = (if extensionAllowed f then MSG_TOO_LARGE else MSG_BAD_FORMAT)"
  by (simp add: validate_Some)

theorem validate_oversized_witness:
  "size_bytes \<lparr>name = ''Big.PDF'', size_bytes = 20971521\<rparr> > MAX_BYTES \<and>
   validate (Some \<lparr>name = ''Big.PDF'', size_bytes = 20971521\<rparr>) = MSG_TOO_LARGE"
proof -
  have big: "size_bytes \<lparr>name = ''Big.PDF'', size_bytes = 20971521\<rparr> > MAX_BYTES"
    by (simp add: MAX_BYTES_def)
  from validate_oversized [OF big] extensionAllowed_Big_PDF big show ?thesis
    by simp
qed

text \<open>
  C1 as it is written fails: a file \<open>big.txt\<close> of \<open>20 * 1024 * 1024 + 1\<close> bytes gets the
  unsupported-format message, not the size-limit message.
\<close>

theorem validate_oversized_counterexample:
  "size_bytes \<lparr>name = ''big.txt'', size_bytes = 20971521\<rparr> > 20 * 1024 * 1024 \<and>
   validate (Some \<lparr>name = ''big.txt'', size_bytes = 20971521\<rparr>) \<noteq> MSG_TOO_LARGE \<and>
   validate (Some \<lparr>name = ''big.txt'', size_bytes = 20971521\<rparr>) = MSG_BAD_FORMAT"
  using extensionAllowed_big_txt by (simp add: validate_Some MSG_formats_differ)

section \<open>Properties of the response normaliser\<close>

lemma feedbackText_cases:
  "feedbackText data k =
     (case metricField data k feedback of
        Some t \<Rightarrow> t
      | None \<Rightarrow> (case metricField data k raw of Some t \<Rightarrow> t | None \<Rightarrow> NO_RESPONSE))"
  by (simp add: feedbackText_def nullish_def)

text \<open>
  C3 (as amended).  For every metric key the text shown is the \<open>feedback\<close> field when it is
  present (also when it is the empty string), else the \<open>raw\<close> field when that is present,
  else the no-response placeholder.  The placeholder is not empty, so the text is empty
  exactly when the field that was chosen is itself the empty string.
\<close>

theorem feedbackText_fallback:
  "feedbackText data k =
     (case metricField data k feedback of
        Some t \<Rightarrow> t
      | None \<Rightarrow> (case metricField data k raw of Some t \<Rightarrow> t | None \<Rightarrow> NO_RESPONSE)) \<and>
   (feedbackText data k = [] \<longleftrightarrow>
      metricField data k feedback = Some [] \<or>
      metricField data k feedback = None \<and> metricField data k raw = Some [])"
  by (auto simp: feedbackText_cases NO_RESPONSE_nonempty split: option.splits)

theorem feedbackText_fallback_witness:
  "feedbackText \<lparr>radar = None, metrics = None, metricsScores = Some specScores,
                  metricsTotal10 = None\<rparr> RM = NO_RESPONSE \<and>
   feedbackText \<lparr>radar = None, metrics = None, metricsScores = Some specScores,
                  metricsTotal10 = None\<rparr> RM \<noteq> []"
  using feedbackText_fallback [of "\<lparr>radar = None, metrics = None,
      metricsScores = Some specScores, metricsTotal10 = None\<rparr>" RM]
  by (simp add: metricField_def NO_RESPONSE_nonempty)

text \<open>
  C3 as it is written fails: with \<open>feedback\<close> the empty string and \<open>raw\<close> a text, the
  text shown for \<open>CP\<close> is the empty string.
\<close>

theorem feedbackText_empty_counterexample:
  "feedbackText
     \<lparr>radar = None,
      metrics = Some (\<lambda>k. Some \<lparr>metric = None, score_10 = None, feedback = Some [],
                                 raw = Some ''raw text''\<rparr>),
      metricsScores = Some (\<lambda>k. Some 7), metricsTotal10 = Some 7\<rparr> CP = []"
  by (simp add: feedbackText_def metricField_def nullish_def)

text \<open>
  C5.  When the six-metric scores are present, the radar series is the six pairs in the
  order CP, RI, FP, ETS, IO, RM with the scores as values (a score that is missing from the
  record counts as 0), whatever the legacy radar array is; when they are absent, the series
  is the legacy radar array as it is, and empty when that is absent too.
\<close>

theorem radarData_precedence:
  "(metricsScores data = Some s \<longrightarrow>
      radarData data =
        [\<lparr>axis = ''CP'', val = nullish (s CP) 0\<rparr>, \<lparr>axis = ''RI'', val = nullish (s RI) 0\<rparr>,
         \<lparr>axis = ''FP'', val = nullish (s FP) 0\<rparr>, \<lparr>axis = ''ETS'', val = nullish (s ETS) 0\<rparr>,
         \<lparr>axis = ''IO'', val = nullish (s IO) 0\<rparr>, \<lparr>axis = ''RM'', val = nullish (s RM) 0\<rparr>] \<and>
      ((\<forall>k. s k = Some (v k)) \<longrightarrow>
         radarData data = map (\<lambda>k. \<lparr>axis = keyName k, val = v k\<rparr>) METRIC_KEYS) \<and>
      radarData (data\<lparr>radar := legacy\<rparr>) = radarData data) \<and>
   (metricsScores data = None \<longrightarrow>
      radarData data = (case radar data of Some items \<Rightarrow> items | None \<Rightarrow> []))"
proof (intro conjI impI)
  assume six: "metricsScores data = Some s"
  show full: "radarData data =
        [\<lparr>axis = ''CP'', val = nullish (s CP) 0\<rparr>, \<lparr>axis = ''RI'', val = nullish (s RI) 0\<rparr>,
         \<lparr>axis = ''FP'', val = nullish (s FP) 0\<rparr>, \<lparr>axis = ''ETS'', val = nullish (s ETS) 0\<rparr>,
         \<lparr>axis = ''IO'', val = nullish (s IO) 0\<rparr>, \<lparr>axis = ''RM'', val = nullish (s RM) 0\<rparr>]"
    using six by (simp add: radarData_def toRadarFromSix_def)
  show "radarData data = map (\<lambda>k. \<lparr>axis = keyName k, val = v k\<rparr>) METRIC_KEYS"
    if "\<forall>k. s k = Some (v k)"
    unfolding full using that by (simp add: METRIC_KEYS_def nullish_def)
  show "radarData (data\<lparr>radar := legacy\<rparr>) = radarData data"
    using six by (simp add: radarData_def)
next
  assume "metricsScores data = None"
  then show "radarData data = (case radar data of Some items \<Rightarrow> items | None \<Rightarrow> [])"
    by (simp add: radarData_def nullish_def)
qed

theorem radarData_precedence_witness:
  "metricsScores \<lparr>radar = Some legacyRadar, metrics = None,
                  metricsScores = Some specScores, metricsTotal10 = Some 7\<rparr> = Some specScores \<and>
   (\<forall>k. specScores k = Some (specValues k)) \<and>
   radarData \<lparr>radar = Some legacyRadar, metrics = None,
              metricsScores = Some specScores, metricsTotal10 = Some 7\<rparr> =
     [\<lparr>axis = ''CP'', val = 8\<rparr>, \<lparr>axis = ''RI'', val = 7\<rparr>, \<lparr>axis = ''FP'', val = 6\<rparr>,
      \<lparr>axis = ''ETS'', val = 9\<rparr>, \<lparr>axis = ''IO'', val = 5\<rparr>, \<lparr>axis = ''RM'', val = 7\<rparr>] \<and>
   metricsScores \<lparr>radar = Some legacyRadar, metrics = None,
                  metricsScores = None, metricsTotal10 = None\<rparr> = None \<and>
   radarData \<lparr>radar = Some legacyRadar, metrics = None,
              metricsScores = None, metricsTotal10 = None\<rparr> = legacyRadar"
  using radarData_precedence [of "\<lparr>radar = Some legacyRadar, metrics = None,
              metricsScores = Some specScores, metricsTotal10 = Some 7\<rparr>" specScores
              specValues None]
    radarData_precedence [of "\<lparr>radar = Some legacyRadar, metrics = None,
              metricsScores = None, metricsTotal10 = None\<rparr>" specScores "\<lambda>k. 0" None]
  by (simp add: specScores_def specValues_def METRIC_KEYS_def nullish_def)

section \<open>Properties of the uploader\<close>

text \<open>
  The rounding to a double: \<open>dblRatio\<close> is within half a unit in the last place of the
  exact quotient (\<open>dblRatio_error\<close>), returns a quotient that is a double unchanged
  (\<open>dblRatio_exact\<close>), and never falls below a double that the quotient reaches
  (\<open>dblRatio_ge\<close>).
\<close>

lemma rne_exact: "0 < q \<Longrightarrow> rne (c * q) q = c"
  by (simp add: rne_def)

lemma rne_error:
  assumes "0 < q"
  shows "\<bar>of_int (rne p q) - (of_int p / of_int q :: real)\<bar> \<le> 1 / 2"
proof -
  define f where "f = p div q"
  define r where "r = p mod q"
  have r: "0 \<le> r" "r < q"
    using assms by (simp_all add: r_def)
  have "p = q * f + r"
    by (simp add: f_def r_def)
  then have "(of_int p :: real) = of_int q * of_int f + of_int r"
    by (metis of_int_add of_int_mult)
  then have x: "(of_int p / of_int q :: real) = of_int f + of_int r / of_int q"
    using assms by (simp add: field_simps)
  have q: "(0::real) < of_int q" using assms by simp
  consider "2 * r < q" | "q < 2 * r" | "2 * r = q" by linarith
  then show ?thesis
  proof cases
    case 1
    then have "rne p q = f" by (simp add: rne_def f_def r_def)
    moreover have "(of_int (2 * r) :: real) < of_int q"
      using 1 by (simp only: of_int_less_iff)
    then have "(of_int r / of_int q :: real) < 1 / 2"
      using q by (simp add: field_simps)
    moreover have "(0::real) \<le> of_int r / of_int q" using r q by simp
    ultimately show ?thesis unfolding x by simp
  next
    case 2
    then have "rne p q = f + 1" by (simp add: rne_def f_def r_def)
    moreover have "(of_int q :: real) < of_int (2 * r)"
      using 2 by (simp only: of_int_less_iff)
    then have "(1 / 2 :: real) < of_int r / of_int q"
      using q by (simp add: field_simps)
    moreover have "(of_int r / of_int q :: real) < 1" using r q by simp
    ultimately show ?thesis unfolding x by simp
  next
    case 3
    then have "(of_int (2 * r) :: real) = of_int q"
      by (simp only:)
    then have "(of_int r / of_int q :: real) = 1 / 2"
      using q by (simp add: field_simps)
    moreover have "rne p q = f \<or> rne p q = f + 1"
      using 3 by (simp add: rne_def f_def r_def Let_def)
    ultimately show ?thesis unfolding x by auto
  qed
qed

lemma two_powi_nat: "0 \<le> k \<Longrightarrow> (of_int (2 ^ nat k) :: real) = 2 powi k"
  by (simp add: power_int_def)

lemma bitlen_powi:
  assumes "0 < a"
  shows "2 powi (bitlen a - 1) \<le> (of_int a :: real)" and "(of_int a :: real) < 2 powi bitlen a"
proof -
  have b: "0 \<le> bitlen a - 1" "0 \<le> bitlen a"
    using assms bitlen_nonneg [of a] bitlen_eq_zero_iff [of a] by (simp_all add: order_less_le)
  have "2 ^ nat (bitlen a - 1) \<le> a" "a < 2 ^ nat (bitlen a)"
    using bitlen_bounds [OF assms] by simp_all
  then have "(of_int (2 ^ nat (bitlen a - 1)) :: real) \<le> of_int a"
    and "(of_int a :: real) < of_int (2 ^ nat (bitlen a))"
    by (simp_all only: of_int_le_iff of_int_less_iff)
  then show "2 powi (bitlen a - 1) \<le> (of_int a :: real)" and "(of_int a :: real) < 2 powi bitlen a"
    using b by (simp_all only: two_powi_nat)
qed

lemma binade_bounds:
  assumes "0 < a" and "0 < d"
  shows "2 powi binade a d \<le> (of_int a / of_int d :: real)"
    and "(of_int a / of_int d :: real) < 2 powi (binade a d + 1)"
proof -
  define k where "k = bitlen a - bitlen d"
  let ?x = "of_int a / of_int d :: real"
  have d: "(0::real) < of_int d" and a: "(0::real) < of_int a" using assms by simp_all
  have test: "(if 0 \<le> k then 2 ^ nat k * d \<le> a else d \<le> 2 ^ nat (- k) * a) \<longleftrightarrow> 2 powi k \<le> ?x"
  proof (cases "0 \<le> k")
    case True
    have "2 ^ nat k * d \<le> a \<longleftrightarrow> (of_int (2 ^ nat k * d) :: real) \<le> of_int a"
      by (simp only: of_int_le_iff)
    also have "\<dots> \<longleftrightarrow> 2 powi k * of_int d \<le> (of_int a :: real)"
      using True by (simp add: power_int_def)
    also have "\<dots> \<longleftrightarrow> 2 powi k \<le> ?x"
      using d by (simp add: pos_le_divide_eq)
    finally show ?thesis using True by simp
  next
    case False
    then have nk: "0 \<le> - k" by simp
    have inv: "(2::real) powi k = 1 / 2 powi (- k)"
      by (simp add: power_int_minus_divide)
    have "d \<le> 2 ^ nat (- k) * a \<longleftrightarrow> (of_int d :: real) \<le> of_int (2 ^ nat (- k) * a)"
      by (simp only: of_int_le_iff)
    also have "\<dots> \<longleftrightarrow> (of_int d :: real) \<le> 2 powi (- k) * of_int a"
      using two_powi_nat [OF nk] by simp
    also have "\<dots> \<longleftrightarrow> 2 powi k \<le> ?x"
      unfolding inv using d by (simp add: field_simps)
    finally show ?thesis using False by simp
  qed
  have up: "?x < 2 powi (k + 1)"
  proof -
    have "of_int a < (2::real) powi bitlen a" using bitlen_powi(2) [OF assms(1)] .
    moreover have "(2::real) powi (bitlen d - 1) \<le> of_int d" using bitlen_powi(1) [OF assms(2)] .
    ultimately have "?x < 2 powi bitlen a / 2 powi (bitlen d - 1)"
      using a d by (intro frac_less) simp_all
    also have "\<dots> = 2 powi (bitlen a - (bitlen d - 1))"
      by (rule power_int_diff [symmetric]) simp
    also have "bitlen a - (bitlen d - 1) = k + 1"
      by (simp add: k_def)
    finally show ?thesis .
  qed
  have low: "2 powi (k - 1) \<le> ?x"
  proof -
    have "(2::real) powi (bitlen a - 1) \<le> of_int a" using bitlen_powi(1) [OF assms(1)] .
    moreover have "of_int d \<le> (2::real) powi bitlen d" using bitlen_powi(2) [OF assms(2)] by simp
    ultimately have "2 powi (bitlen a - 1) / 2 powi bitlen d \<le> ?x"
      using a d by (intro frac_le) simp_all
    moreover have "2 powi (bitlen a - 1) / 2 powi bitlen d = (2::real) powi (bitlen a - 1 - bitlen d)"
      by (rule power_int_diff [symmetric]) simp
    moreover have "bitlen a - 1 - bitlen d = k - 1"
      by (simp add: k_def)
    ultimately show ?thesis by simp
  qed
  show "2 powi binade a d \<le> ?x"
    using test low by (auto simp: binade_def Let_def k_def [symmetric])
  show "?x < 2 powi (binade a d + 1)"
    using test up by (auto simp: binade_def Let_def k_def [symmetric] not_le)
qed


lemma dblRatio_pos:
  assumes "0 < n" and "0 < d"
  obtains m where "dblRatio n d = of_int m * 2 powi (binade n d - 52)"
    and "\<bar>of_int m - (of_int n / of_int d) / 2 powi (binade n d - 52)\<bar> \<le> (1 / 2 :: real)"
    and "\<And>c. (of_int n / of_int d :: real) = of_int c * 2 powi (binade n d - 52) \<Longrightarrow> m = c"
proof (cases "binade n d \<le> 52")
  case True
  define s where "s = nat (52 - binade n d)"
  define m where "m = rne (n * 2 ^ s) d"
  have u: "(2::real) powi (binade n d - 52) = 1 / 2 ^ s"
  proof -
    have "binade n d - 52 = - int s" using True by (simp add: s_def)
    then show ?thesis by (simp add: power_int_minus_divide)
  qed
  have dbl: "dblRatio n d = of_int m * 2 powi (binade n d - 52)"
    using assms True unfolding u by (simp add: dblRatio_def Let_def m_def s_def)
  have scaled: "(of_int n / of_int d) / 2 powi (binade n d - 52)
                  = (of_int (n * 2 ^ s) / of_int d :: real)"
    unfolding u by simp
  have err: "\<bar>of_int m - (of_int n / of_int d) / 2 powi (binade n d - 52)\<bar> \<le> (1 / 2 :: real)"
    unfolding scaled m_def by (rule rne_error [OF assms(2)])
  have ex: "m = c" if "(of_int n / of_int d :: real) = of_int c * 2 powi (binade n d - 52)" for c
  proof -
    have "(of_int (n * 2 ^ s) / of_int d :: real) = of_int c"
      using that scaled by simp
    then have "(of_int (n * 2 ^ s) :: real) = of_int (c * d)"
      using assms(2) by (simp add: field_simps)
    then have "n * 2 ^ s = c * d"
      by (simp only: of_int_eq_iff)
    then show ?thesis
      unfolding m_def using rne_exact [OF assms(2), of c] by simp
  qed
  from dbl err ex show ?thesis by (rule that)
next
  case False
  define s where "s = nat (binade n d - 52)"
  define m where "m = rne n (d * 2 ^ s)"
  have u: "(2::real) powi (binade n d - 52) = 2 ^ s"
  proof -
    have "binade n d - 52 = int s" using False by (simp add: s_def)
    then show ?thesis by simp
  qed
  have q: "0 < d * 2 ^ s" using assms(2) by simp
  have dbl: "dblRatio n d = of_int m * 2 powi (binade n d - 52)"
    using assms False unfolding u by (simp add: dblRatio_def Let_def m_def s_def)
  have scaled: "(of_int n / of_int d) / 2 powi (binade n d - 52)
                  = (of_int n / of_int (d * 2 ^ s) :: real)"
    unfolding u by simp
  have err: "\<bar>of_int m - (of_int n / of_int d) / 2 powi (binade n d - 52)\<bar> \<le> (1 / 2 :: real)"
    unfolding scaled m_def by (rule rne_error [OF q])
  have ex: "m = c" if "(of_int n / of_int d :: real) = of_int c * 2 powi (binade n d - 52)" for c
  proof -
    have "(of_int n / of_int (d * 2 ^ s) :: real) = of_int c"
      using that scaled by simp
    then have "(of_int n :: real) = of_int (c * (d * 2 ^ s))"
      using assms(2) by (simp add: field_simps)
    then have "n = c * (d * 2 ^ s)"
      by (simp only: of_int_eq_iff)
    then show ?thesis
      unfolding m_def using rne_exact [OF q, of c] by simp
  qed
  from dbl err ex show ?thesis by (rule that)
qed

lemma binade_less:
  assumes "0 < n" and "0 < d" and "(of_int n / of_int d :: real) < 2 powi E"
  shows "binade n d < E"
proof -
  have lt: "(2::real) powi binade n d < 2 powi E"
    using binade_bounds(1) [OF assms(1,2)] assms(3) by simp
  show ?thesis
  proof (rule ccontr)
    assume "\<not> binade n d < E"
    then have "(2::real) powi E \<le> 2 powi binade n d"
      by (intro power_int_increasing) simp_all
    with lt show False by simp
  qed
qed

lemma dblRatio_error:
  assumes "0 < n" and "0 < d" and "(of_int n / of_int d :: real) < 2 powi E"
  shows "\<bar>dblRatio n d - of_int n / of_int d\<bar> \<le> 2 powi (E - 54)"
proof -
  let ?u = "(2::real) powi (binade n d - 52)"
  have u: "0 < ?u" by simp
  obtain m where m: "dblRatio n d = of_int m * ?u"
    and err: "\<bar>of_int m - (of_int n / of_int d) / ?u\<bar> \<le> (1 / 2 :: real)"
    using dblRatio_pos [OF assms(1,2)] by blast
  have "\<bar>dblRatio n d - of_int n / of_int d\<bar> = \<bar>of_int m - (of_int n / of_int d) / ?u\<bar> * ?u"
  proof -
    have "dblRatio n d - of_int n / of_int d = (of_int m - (of_int n / of_int d) / ?u) * ?u"
      unfolding m using u by (simp add: field_simps)
    then show ?thesis
      using u by (simp add: abs_mult)
  qed
  also have "\<dots> \<le> 1 / 2 * ?u"
    using err u by (intro mult_right_mono) simp_all
  also have "\<dots> = 2 powi (binade n d - 53)"
  proof -
    have "(2::real) powi (binade n d - 53 + 1) = 2 powi (binade n d - 53) * 2"
      by (rule power_int_add_1) simp
    moreover have "binade n d - 53 + 1 = binade n d - 52" by simp
    ultimately have "?u = 2 powi (binade n d - 53) * 2"
      by simp
    then show ?thesis by simp
  qed
  also have "\<dots> \<le> 2 powi (E - 54)"
    using binade_less [OF assms] by (intro power_int_increasing) simp_all
  finally show ?thesis .
qed


lemma dblRatio_scale:
  assumes "0 < n" and "0 < d" and "(of_int n / of_int d :: real) < 2 powi E" and "E - 53 \<le> i"
  obtains C where "of_int c * 2 powi i = (of_int C :: real) * 2 powi (binade n d - 52)"
proof -
  define j where "j = nat (i - (binade n d - 52))"
  have ji: "i = (binade n d - 52) + int j"
    using binade_less [OF assms(1,2,3)] assms(4) by (simp add: j_def)
  have "(2::real) powi i = 2 powi (binade n d - 52) * 2 powi (int j)"
    unfolding ji by (rule power_int_add) simp
  then have "of_int c * 2 powi i = (of_int (c * 2 ^ j) :: real) * 2 powi (binade n d - 52)"
    by simp
  then show ?thesis by (rule that)
qed

lemma dblRatio_exact:
  assumes "0 < n" and "0 < d" and "(of_int n / of_int d :: real) < 2 powi E" and "E - 53 \<le> i"
    and "(of_int n / of_int d :: real) = of_int c * 2 powi i"
  shows "dblRatio n d = of_int n / of_int d"
proof -
  obtain C where C: "of_int c * 2 powi i = (of_int C :: real) * 2 powi (binade n d - 52)"
    using dblRatio_scale [OF assms(1-4)] by blast
  obtain m where m: "dblRatio n d = of_int m * 2 powi (binade n d - 52)"
    and ex: "\<And>c. (of_int n / of_int d :: real) = of_int c * 2 powi (binade n d - 52) \<Longrightarrow> m = c"
    using dblRatio_pos [OF assms(1,2)] by blast
  have "m = C"
    using ex [of C] assms(5) C by simp
  then show ?thesis
    using m assms(5) C by simp
qed

lemma dblRatio_ge:
  assumes "0 < n" and "0 < d" and "(of_int n / of_int d :: real) < 2 powi E" and "E - 53 \<le> i"
    and "of_int c * 2 powi i \<le> (of_int n / of_int d :: real)"
  shows "of_int c * 2 powi i \<le> dblRatio n d"
proof -
  let ?u = "(2::real) powi (binade n d - 52)"
  have u: "0 < ?u" by simp
  obtain C where C: "of_int c * 2 powi i = (of_int C :: real) * ?u"
    using dblRatio_scale [OF assms(1-4)] by blast
  obtain m where m: "dblRatio n d = of_int m * ?u"
    and err: "\<bar>of_int m - (of_int n / of_int d) / ?u\<bar> \<le> (1 / 2 :: real)"
    using dblRatio_pos [OF assms(1,2)] by blast
  have "of_int C * ?u \<le> of_int n / of_int d"
    using assms(5) unfolding C .
  then have "of_int C \<le> (of_int n / of_int d) / ?u"
    using u by (simp only: pos_le_divide_eq)
  then have "(of_int C :: real) - 1 / 2 \<le> of_int m"
    using err by linarith
  then have "C \<le> m" by linarith
  then have "(of_int C :: real) * ?u \<le> of_int m * ?u"
    using u by (intro mult_right_mono) simp_all
  then show ?thesis
    unfolding C m .
qed

lemma dblRatio_zero [simp]: "dblRatio 0 d = 0"
  by (simp add: dblRatio_def)

lemma dblRatio_minus: "dblRatio (- n) d = - dblRatio n d"
  by (simp add: dblRatio_def Let_def sgn_if)

lemma dblRatio_int:
  assumes "\<bar>n\<bar> < 2 ^ 53"
  shows "dblRatio n 1 = of_int n"
proof -
  have pos: "dblRatio k 1 = of_int k" if "0 < k" "k < 2 ^ 53" for k
  proof -
    have "(of_int k :: real) < of_int (2 ^ 53)"
      using that(2) by (simp only: of_int_less_iff)
    then have "(of_int k / of_int 1 :: real) < 2 powi 53"
      by simp
    moreover have "(of_int k / of_int 1 :: real) = of_int k * 2 powi 0"
      by simp
    ultimately have "dblRatio k 1 = of_int k / of_int 1"
      using that(1) by (intro dblRatio_exact [where E = 53 and i = 0 and c = k]) simp_all
    then show ?thesis by simp
  qed
  consider "n = 0" | "0 < n" | "n < 0" by linarith
  then show ?thesis
  proof cases
    case 1
    then show ?thesis by simp
  next
    case 2
    then show ?thesis using pos [of n] assms by simp
  next
    case 3
    then have "dblRatio (- n) 1 = of_int (- n)"
      using pos [of "- n"] assms by simp
    then show ?thesis
      by (simp add: dblRatio_minus)
  qed
qed

text \<open>
  The steps of lines 132 and 134 for byte counts below \<open>2 ^ 46\<close>: the product
  \<open>loaded * 100\<close> is exact, the double quotient is rounded by \<open>Math.round\<close> to the
  same integer as the exact quotient, and the floor of the double product with \<open>0.4\<close>
  is the floor of two fifths of the percentage.
\<close>

lemma floor_POINT_FOUR:
  assumes "0 \<le> p" "p < 9007199254740992"
  shows "\<lfloor>of_int p * POINT_FOUR\<rfloor> = (2 * p) div 5"
proof -
  define q where "q = (2 * p) div 5"
  define r where "r = (2 * p) mod 5"
  have split: "2 * p = 5 * q + r" and r: "0 \<le> r" "r < 5"
    by (simp_all add: q_def r_def)
  have "\<lfloor>of_int p * POINT_FOUR\<rfloor> =
        \<lfloor>(of_int (p * 3602879701896397) :: real) / of_int 9007199254740992\<rfloor>"
    by (simp add: POINT_FOUR_def)
  also have "\<dots> = (p * 3602879701896397) div 9007199254740992"
    by (rule floor_divide_of_int_eq)
  also have "\<dots> = q"
  proof (rule int_div_pos_eq [where r = "p * 3602879701896397 - 9007199254740992 * q"])
    show "p * 3602879701896397 =
          9007199254740992 * q + (p * 3602879701896397 - 9007199254740992 * q)"
      by simp
    show "0 \<le> p * 3602879701896397 - 9007199254740992 * q"
      using split r assms by linarith
    show "p * 3602879701896397 - 9007199254740992 * q < 9007199254740992"
      using split r assms by linarith
  qed
  finally show ?thesis by (simp add: q_def)
qed

lemma floor_two_fifths: "\<lfloor>of_int p * (2 / 5 :: real)\<rfloor> = (2 * p) div 5"
proof -
  have "\<lfloor>of_int p * (2 / 5 :: real)\<rfloor> = \<lfloor>(of_int (2 * p) :: real) / of_int 5\<rfloor>"
    by (simp add: mult.commute)
  also have "\<dots> = (2 * p) div 5"
    by (rule floor_divide_of_int_eq)
  finally show ?thesis .
qed

lemma Math_round_percent:
  assumes "0 < t" "0 \<le> l" "l \<le> t"
  shows "0 \<le> Math_round (of_int (l * 100) / of_int t)"
    and "Math_round (of_int (l * 100) / of_int t) \<le> 100"
proof -
  have t: "(0::real) < of_int t" using assms by simp
  have lo: "(0::real) \<le> of_int (l * 100) / of_int t"
    using assms by simp
  have hi: "of_int (l * 100) / of_int t \<le> (100::real)"
    using assms t by (simp add: pos_divide_le_eq)
  show "0 \<le> Math_round (of_int (l * 100) / of_int t)"
    unfolding Math_round_def using lo by (simp add: zero_le_floor)
  show "Math_round (of_int (l * 100) / of_int t) \<le> 100"
    unfolding Math_round_def using hi by (simp add: floor_le_iff)
qed


lemma dbl_mul_exact:
  assumes "\<bar>a * b\<bar> < 2 ^ 53"
  shows "dbl_mul a b = a * b"
proof -
  have "dblRatio (a * b) 1 = of_int (a * b)"
    using assms by (rule dblRatio_int)
  then show ?thesis
    unfolding dbl_mul_def by (simp only: floor_of_int)
qed

lemma dbl_add_exact:
  assumes "\<bar>a + b\<bar> < 2 ^ 53"
  shows "dbl_add a b = a + b"
proof -
  have "dblRatio (a + b) 1 = of_int (a + b)"
    using assms by (rule dblRatio_int)
  then show ?thesis
    unfolding dbl_add_def by (simp only: floor_of_int)
qed

lemma Math_round_dbl_div:
  assumes "0 < t" and "0 \<le> a" and "a \<le> 100 * t" and "t < 2 ^ 46"
  shows "Math_round (dbl_div a t) = Math_round (of_int a / of_int t)"
proof (cases "a = 0")
  case True
  then show ?thesis by (simp add: dbl_div_def)
next
  case False
  then have a: "0 < a" using assms(2) by simp
  let ?x = "of_int a / of_int t :: real"
  define k where "k = \<lfloor>?x + 1 / 2\<rfloor>"
  have t: "(0::real) < of_int t" using assms(1) by simp
  have q: "dbl_div a t = dblRatio a t"
    using assms(1) by (simp add: dbl_div_def)
  have "(of_int a :: real) \<le> of_int (100 * t)"
    using assms(3) by (simp only: of_int_le_iff)
  then have hundred: "?x \<le> 100"
    using t by (simp add: pos_divide_le_eq)
  then have lt: "?x < 2 powi 7" by simp
  have klo: "of_int k \<le> ?x + 1 / 2" and khi: "?x + 1 / 2 < of_int k + 1"
    unfolding k_def by linarith+
  have low: "of_int k \<le> dblRatio a t + 1 / 2"
  proof -
    have "of_int (2 * k - 1) * 2 powi (- 1) \<le> ?x"
      using klo by (simp add: power_int_minus field_simps)
    then have "of_int (2 * k - 1) * 2 powi (- 1) \<le> dblRatio a t"
      using a assms(1) lt by (intro dblRatio_ge [where E = 7]) simp_all
    then show ?thesis
      by (simp add: power_int_minus field_simps)
  qed
  have high: "dblRatio a t + 1 / 2 < of_int k + 1"
  proof -
    have "(of_int (2 * a) :: real) < of_int ((2 * k + 1) * t)"
      using khi t by (simp add: field_simps)
    then have "2 * a < (2 * k + 1) * t"
      by (simp only: of_int_less_iff)
    then have "2 * a + 1 \<le> (2 * k + 1) * t"
      by simp
    then have "(of_int (2 * a + 1) :: real) \<le> of_int ((2 * k + 1) * t)"
      by (simp only: of_int_le_iff)
    then have gap: "?x + 1 / (2 * of_int t) \<le> of_int k + 1 / 2"
      using t by (simp add: field_simps)
    have "(of_int t :: real) < of_int (2 ^ 46)"
      using assms(4) by (simp only: of_int_less_iff)
    then have "(2 * of_int t :: real) < 2 ^ 47"
      by simp
    then have "1 / (2 ^ 47 :: real) < 1 / (2 * of_int t)"
      using t by (intro divide_strict_left_mono) simp_all
    moreover have "\<bar>dblRatio a t - ?x\<bar> \<le> 2 powi (7 - 54)"
      using a assms(1) lt by (rule dblRatio_error)
    moreover have "(2::real) powi (7 - 54) = 1 / 2 ^ 47"
      by (simp add: power_int_minus_divide)
    ultimately have "dblRatio a t \<le> ?x + 1 / 2 ^ 47" "1 / (2 ^ 47 :: real) < 1 / (2 * of_int t)"
      by linarith+
    then show ?thesis
      using gap by linarith
  qed
  have "\<lfloor>dblRatio a t + 1 / 2\<rfloor> = k"
    using low high by (intro floor_unique) simp_all
  then show ?thesis
    by (simp add: Math_round_def q k_def)
qed

lemma floor_dbl_mul_POINT_FOUR:
  assumes "0 \<le> p" and "p \<le> 100"
  shows "Math_floor (dbl_mul_POINT_FOUR p) = (2 * p) div 5"
proof (cases "p = 0")
  case True
  then show ?thesis by (simp add: Math_floor_def dbl_mul_POINT_FOUR_def)
next
  case False
  then have p: "0 < p" using assms(1) by simp
  define j where "j = (2 * p) div 5"
  define r where "r = (2 * p) mod 5"
  have split: "2 * p = 5 * j + r" and r: "0 \<le> r" "r < 5"
    by (simp_all add: j_def r_def)
  let ?n = "p * 3602879701896397"
  let ?x = "of_int ?n / of_int 9007199254740992 :: real"
  have n: "0 < ?n" using p by simp
  have x: "?x = of_int p * POINT_FOUR"
    by (simp add: POINT_FOUR_def)
  have "\<lfloor>?x\<rfloor> = j"
    unfolding x j_def using assms by (intro floor_POINT_FOUR) simp_all
  then have jlo: "of_int j \<le> ?x"
    by linarith
  have "(of_int (2 * p) :: real) = of_int (5 * j + r)"
    using split by (simp only:)
  then have five: "5 * ?x = 5 * of_int j + of_int r + of_int p / 9007199254740992"
    by simp
  have "(of_int r :: real) \<le> 4" "(of_int p :: real) \<le> 100"
    using r assms(2) by simp_all
  with five have xhi: "?x \<le> of_int j + 9 / 10"
    by simp
  have "(of_int p :: real) \<le> 100" using assms(2) by simp
  then have lt: "?x < 2 powi 6"
    by simp
  have low: "of_int j \<le> dblRatio ?n 9007199254740992"
  proof -
    have "of_int j * 2 powi 0 \<le> ?x" using jlo by simp
    then have "of_int j * 2 powi 0 \<le> dblRatio ?n 9007199254740992"
      using n lt by (intro dblRatio_ge [where E = 6]) simp_all
    then show ?thesis by simp
  qed
  have "\<bar>dblRatio ?n 9007199254740992 - ?x\<bar> \<le> 2 powi (6 - 54)"
    using n _ lt by (rule dblRatio_error) simp
  moreover have "(2::real) powi (6 - 54) = 1 / 2 ^ 48"
    by (simp add: power_int_minus_divide)
  ultimately have "dblRatio ?n 9007199254740992 \<le> ?x + 1 / 2 ^ 48"
    by linarith
  with xhi have high: "dblRatio ?n 9007199254740992 < of_int j + 1"
    by simp
  have "\<lfloor>dblRatio ?n 9007199254740992\<rfloor> = j"
    using low high by (intro floor_unique) simp_all
  then show ?thesis
    by (simp add: Math_floor_def dbl_mul_POINT_FOUR_def j_def)
qed

text \<open>
  C4 (as amended).  For a progress event with \<open>0 < total < 2 ^ 46\<close> and
  \<open>0 \<le> loaded \<le> total\<close>, and an offset of magnitude at most \<open>2 ^ 52\<close> (the
  code passes 0 and 40), the value reported is
  \<open>progressOffset + floor(round(loaded / total * 100) * 0.4)\<close>: the percentage is
  rounded to the nearest integer (a half upwards) before it is scaled.  The share of one
  upload lies between 0 and 40.
\<close>

theorem onUploadProgress_value:
  assumes "0 < t" and "0 \<le> l" and "l \<le> t" and "t < 2 ^ 46"
    and "\<bar>progressOffset\<bar> \<le> 2 ^ 52"
  shows "onUploadProgress progressOffset \<lparr>loaded = Some l, total = Some t\<rparr> =
           [SetProgress (progressOffset
              + \<lfloor>of_int (Math_round (of_int l / of_int t * 100)) * (4 / 10 :: real)\<rfloor>)] \<and>
         0 \<le> \<lfloor>of_int (Math_round (of_int l / of_int t * 100)) * (4 / 10 :: real)\<rfloor> \<and>
         \<lfloor>of_int (Math_round (of_int l / of_int t * 100)) * (4 / 10 :: real)\<rfloor> \<le> 40"
proof -
  let ?pct = "Math_round (of_int (l * 100) / of_int t)"
  have same: "(of_int l / of_int t * 100 :: real) = of_int (l * 100) / of_int t"
    by simp
  have rng: "0 \<le> ?pct" "?pct \<le> 100"
    using Math_round_percent [OF assms(1,2,3)] by simp_all
  have fl': "\<lfloor>of_int ?pct * (4 / 10 :: real)\<rfloor> = (2 * ?pct) div 5"
    using floor_two_fifths [of ?pct] by simp
  have share: "0 \<le> (2 * ?pct) div 5" "(2 * ?pct) div 5 \<le> 40"
    using rng by simp_all
  have "l * 100 < 2 ^ 53"
    using assms(3,4) by simp
  then have mul: "dbl_mul l 100 = l * 100"
    using assms(2) by (intro dbl_mul_exact) simp
  have pct: "Math_round (dbl_div (l * 100) t) = ?pct"
    using assms(1,2,3,4) by (intro Math_round_dbl_div) simp_all
  have fl: "Math_floor (dbl_mul_POINT_FOUR ?pct) = (2 * ?pct) div 5"
    using rng by (rule floor_dbl_mul_POINT_FOUR)
  have add: "dbl_add progressOffset ((2 * ?pct) div 5) = progressOffset + (2 * ?pct) div 5"
    using assms(5) share by (intro dbl_add_exact) simp
  have "onUploadProgress progressOffset \<lparr>loaded = Some l, total = Some t\<rparr> =
          [SetProgress (dbl_add progressOffset
             (Math_floor (dbl_mul_POINT_FOUR (Math_round (dbl_div (dbl_mul l 100) t)))))]"
    using assms(1) by (simp add: onUploadProgress_def nullish_def Let_def)
  then have "onUploadProgress progressOffset \<lparr>loaded = Some l, total = Some t\<rparr> =
          [SetProgress (progressOffset + (2 * ?pct) div 5)]"
    by (simp only: mul pct fl add)
  with share show ?thesis
    unfolding same fl' by simp
qed

text \<open>The double computations at the inputs of the examples below.\<close>

lemma dbl_eval:
  "Math_round (dbl_div (dbl_mul 46 100) 1000) = 5"
  "Math_floor (dbl_mul_POINT_FOUR 5) = 2"
  "dbl_add 0 2 = 2" "dbl_add 40 2 = 42"
  by code_simp+

lemma dbl_eval_large:
  "Math_round (dbl_div (dbl_mul 50665495807921 100) 1125899906842689) = 5"
  "Math_round (50665495807921 / 1125899906842689 * 100) = 4"
  by code_simp+

lemma dbl_eval_negative:
  "Math_round (dbl_div (dbl_mul (- 5) 100) 100) = - 5"
  "Math_floor (dbl_mul_POINT_FOUR (- 5)) = - 2"
  "dbl_add 0 (- 2) = - 2"
  by code_simp+

theorem onUploadProgress_value_witness:
  "(0::int) < 1000 \<and> (0::int) \<le> 46 \<and> (46::int) \<le> 1000 \<and> (1000::int) < 2 ^ 46 \<and>
   \<bar>40::int\<bar> \<le> 2 ^ 52 \<and>
   onUploadProgress 40 \<lparr>loaded = Some 46, total = Some 1000\<rparr> = [SetProgress 42]"
proof -
  have r: "Math_round (46 / 1000 * 100) = 5"
    by (simp add: Math_round_def)
  from onUploadProgress_value [of 1000 46 40] r show ?thesis
    by simp
qed

text \<open>
  C4 as it is written fails: at \<open>loaded = 46\<close>, \<open>total = 1000\<close>, offset 0, the percentage
  4.6 is rounded to 5 and the value reported is 2, where the formula without the rounding
  gives \<open>floor(1.84) = 1\<close>.
\<close>

theorem onUploadProgress_counterexample:
  "(0::int) < 1000 \<and> (0::int) \<le> 46 \<and> (46::int) \<le> 1000 \<and>
   onUploadProgress 0 \<lparr>loaded = Some 46, total = Some 1000\<rparr> = [SetProgress 2] \<and>
   specProgress 0 46 1000 = 1 \<and>
   onUploadProgress 0 \<lparr>loaded = Some 46, total = Some 1000\<rparr>
     \<noteq> [SetProgress (specProgress 0 46 1000)]"
  by (simp add: onUploadProgress_def nullish_def dbl_eval specProgress_def)

text \<open>
  Beyond the bound the division in doubles shows: at \<open>total = 2 ^ 50 + 65\<close> (the numeral
  below) and \<open>loaded = 50665495807921\<close> the exact percentage lies just under 4.5, the
  double quotient is 4.5, and the value reported is 2, not 1.  For a negative byte count
  the double product \<open>- 5 * 0.4\<close> is \<open>- 2\<close> exactly, and so is its floor.
\<close>

lemma onUploadProgress_large_total:
  "onUploadProgress 0 \<lparr>loaded = Some 50665495807921, total = Some 1125899906842689\<rparr>
     = [SetProgress 2] \<and>
   \<lfloor>of_int (Math_round (50665495807921 / 1125899906842689 * 100)) * (4 / 10 :: real)\<rfloor> = 1"
  unfolding dbl_eval_large(2)
  by (simp add: onUploadProgress_def nullish_def Let_def dbl_eval_large(1) dbl_eval)

lemma onUploadProgress_negative:
  "onUploadProgress 0 \<lparr>loaded = Some (- 5), total = Some 100\<rparr> = [SetProgress (- 2)]"
  by (simp add: onUploadProgress_def nullish_def Let_def dbl_eval_negative)

section \<open>Properties of the orchestrator\<close>

lemma applyEffects_Nil [simp]: "applyEffects st [] = st"
  by (simp add: applyEffects_def)

lemma applyEffects_Cons [simp]: "applyEffects st (e # es) = applyEffects (applyEffect st e) es"
  by (simp add: applyEffects_def)

lemma applyEffects_append: "applyEffects st (es @ es') = applyEffects (applyEffects st es) es'"
  by (simp add: applyEffects_def)

lemma applyEffect_files [simp]:
  "rfp (applyEffect st e) = rfp st" "proposal (applyEffect st e) = proposal st"
  by (cases e; simp)+

lemma applyEffects_files [simp]:
  "rfp (applyEffects st es) = rfp st" "proposal (applyEffects st es) = proposal st"
  by (induction es arbitrary: st; simp)+

lemma applyEffects_progressOnly:
  assumes "\<forall>e \<in> set es. progressOnly e"
  shows "message (applyEffects st es) = message st"
    and "isProcessing (applyEffects st es) = isProcessing st"
    and "result (applyEffects st es) = result st"
  using assms
proof (induction es arbitrary: st)
  case Nil
  {
    case 1 show ?case by simp
  next
    case 2 show ?case by simp
  next
    case 3 show ?case by simp
  }
next
  case (Cons e es)
  {
    case 1 then show ?case using Cons.IH(1) [of "applyEffect st e"] by (cases e) simp_all
  next
    case 2 then show ?case using Cons.IH(2) [of "applyEffect st e"] by (cases e) simp_all
  next
    case 3 then show ?case using Cons.IH(3) [of "applyEffect st e"] by (cases e) simp_all
  }
qed

lemma onUploadProgress_progressOnly: "\<forall>e \<in> set (onUploadProgress off evt). progressOnly e"
  by (simp add: onUploadProgress_def Let_def)

lemma uploadOne_progressOnly: "\<forall>e \<in> set (fst (uploadOne net f d off)). progressOnly e"
  using onUploadProgress_progressOnly
  by (auto simp: uploadOne_def Let_def split: prod.splits)

lemma onUploadProgress_no_request: "filter isRequest (onUploadProgress off evt) = []"
  by (simp add: onUploadProgress_def Let_def)

lemma progress_events_no_request:
  "filter isRequest (concat (map (onUploadProgress off) evts)) = []"
  by (induction evts) (simp_all add: onUploadProgress_no_request)

lemma uploadOne_eq:
  "upload net \<lparr>fd_file = f, fd_title = stripExt (name f), fd_docType = d\<rparr> = (evts, res) \<Longrightarrow>
   uploadOne net f d off =
     (PostUpload \<lparr>fd_file = f, fd_title = stripExt (name f), fd_docType = d\<rparr>
        # concat (map (onUploadProgress off) evts) @ [UploadSettled d], res)"
  by (simp add: uploadOne_def Let_def)

lemma uploadOne_no_evaluate: "filter isEvaluate (fst (uploadOne net f d off)) = []"
proof -
  have "\<not> isEvaluate e" if "progressOnly e" for e
    using that by (cases e) simp_all
  then show ?thesis
    using uploadOne_progressOnly [of net f d off] by (auto simp: filter_empty_conv)
qed

lemma onProcess_run:
  assumes "rfp st = Some r" "proposal st = Some p"
  shows "onProcess net st =
           startBlock @ fst (tryBlock net r p) @ catchBlock (snd (tryBlock net r p)) @ finallyBlock"
  using assms by (simp add: onProcess_def startBlock_def split: prod.splits)

lemma onProcess_idle:
  assumes "rfp st = None \<or> proposal st = None"
  shows "onProcess net st = []"
  using assms by (auto simp: onProcess_def split: option.splits)

lemma tryBlock_cases [case_names first_rejected second_rejected not_ready eval_rejected success]:
  obtains
    es1 d where "uploadOne net r RFP 0 = (es1, Rejected d)"
      and "tryBlock net r p = (es1, Thrown d)"
  | es1 u1 es2 d where "uploadOne net r RFP 0 = (es1, Resolved u1)"
      and "uploadOne net p Proposal 40 = (es2, Rejected d)"
      and "tryBlock net r p = (es1 @ es2, Thrown d)"
  | es1 u1 es2 u2 where "uploadOne net r RFP 0 = (es1, Resolved u1)"
      and "uploadOne net p Proposal 40 = (es2, Resolved u2)"
      and "falsy (txtPath u1) \<or> falsy (txtPath u2)"
      and "tryBlock net r p = (es1 @ es2 @ [SetMessage MSG_NOT_READY], Returned)"
  | es1 u1 es2 u2 d where "uploadOne net r RFP 0 = (es1, Resolved u1)"
      and "uploadOne net p Proposal 40 = (es2, Resolved u2)"
      and "\<not> falsy (txtPath u1)" and "\<not> falsy (txtPath u2)"
      and "evaluate net \<lparr>proposalPath = txtPath u2, rfpPath = txtPath u1,
                         guidePath = GUIDE_PATH\<rparr> = Rejected d"
      and "tryBlock net r p =
             (es1 @ es2 @ [SetProgress 80, SetMessage MSG_ANALYZING,
                PostEvaluate \<lparr>proposalPath = txtPath u2, rfpPath = txtPath u1,
                              guidePath = GUIDE_PATH\<rparr>, EvaluateSettled], Thrown d)"
  | es1 u1 es2 u2 data where "uploadOne net r RFP 0 = (es1, Resolved u1)"
      and "uploadOne net p Proposal 40 = (es2, Resolved u2)"
      and "\<not> falsy (txtPath u1)" and "\<not> falsy (txtPath u2)"
      and "evaluate net \<lparr>proposalPath = txtPath u2, rfpPath = txtPath u1,
                         guidePath = GUIDE_PATH\<rparr> = Resolved data"
      and "tryBlock net r p =
             (es1 @ es2 @ [SetProgress 80, SetMessage MSG_ANALYZING,
                PostEvaluate \<lparr>proposalPath = txtPath u2, rfpPath = txtPath u1,
                              guidePath = GUIDE_PATH\<rparr>, EvaluateSettled,
                SetResult (Some data), SetMessage MSG_DONE, SetProgress 100], Returned)"
proof (cases "uploadOne net r RFP 0")
  case first: (Pair es1 o1)
  show ?thesis
  proof (cases o1)
    case (Rejected d)
    with first that(1) show ?thesis by (simp add: tryBlock_def)
  next
    case r1: (Resolved u1)
    show ?thesis
    proof (cases "uploadOne net p Proposal 40")
      case second: (Pair es2 o2)
      show ?thesis
      proof (cases o2)
        case (Rejected d)
        with first r1 second that(2) show ?thesis by (simp add: tryBlock_def)
      next
        case r2: (Resolved u2)
        show ?thesis
        proof (cases "falsy (txtPath u1) \<or> falsy (txtPath u2)")
          case True
          with first r1 second r2 that(3) show ?thesis by (simp add: tryBlock_def)
        next
          case False
          show ?thesis
          proof (cases "evaluate net \<lparr>proposalPath = txtPath u2, rfpPath = txtPath u1,
                         guidePath = GUIDE_PATH\<rparr>")
            case (Rejected d)
            with first r1 second r2 False that(4) [of es1 u1 es2 u2 d] show ?thesis
              by (simp add: tryBlock_def Let_def)
          next
            case (Resolved data)
            with first r1 second r2 False that(5) [of es1 u1 es2 u2 data] show ?thesis
              by (simp add: tryBlock_def Let_def)
          qed
        qed
      qed
    qed
  qed
qed

lemma reachable_slots:
  "reachable st \<Longrightarrow> slotValid (rfp st) \<and> slotValid (proposal st)"
proof (induction rule: reachable.induct)
  case reach_init
  show ?case by (simp add: initialState_def slotValid_def)
next
  case (reach_selectRfp st f)
  then show ?case
    by (auto simp: onSelectRfp_def slotValid_def Let_def split: option.splits)
next
  case (reach_selectProp st f)
  then show ?case
    by (auto simp: onSelectProp_def slotValid_def Let_def split: option.splits)
next
  case (reach_process st n net)
  then show ?case by simp
qed

lemma reachable_exampleState: "reachable exampleState"
  unfolding exampleState_def by (intro reachable.intros)

lemma validate_exampleRfp: "validate (Some exampleRfp) = []"
  by (simp add: validate_accepts_iff extensionAllowed_def exampleRfp_def toLowerCase_def
      toLowerCase_char_def endsWith_def ACCEPTED_EXT_def suffix_to_prefix MAX_BYTES_def)

lemma validate_exampleProposal: "validate (Some exampleProposal) = []"
  by (simp add: validate_accepts_iff extensionAllowed_def exampleProposal_def toLowerCase_def
      toLowerCase_char_def endsWith_def ACCEPTED_EXT_def suffix_to_prefix MAX_BYTES_def)

lemma exampleState_eq:
  "exampleState = initialState\<lparr>rfp := Some exampleRfp, proposal := Some exampleProposal\<rparr>"
  by (simp add: exampleState_def onSelectRfp_def onSelectProp_def validate_exampleRfp
      validate_exampleProposal initialState_def)

text \<open>
  C6.  \<open>canProcess\<close> is true exactly when both slots hold a file and no run is in flight.
  In every state that the component reaches, a file in a slot is one that \<open>validate\<close>
  accepts, so there \<open>canProcess\<close> is true exactly when both files are present and valid
  and no run is in flight.
\<close>

theorem canProcess_iff:
  "(canProcess st \<longleftrightarrow> rfp st \<noteq> None \<and> proposal st \<noteq> None \<and> \<not> isProcessing st) \<and>
   (reachable st \<longrightarrow>
      (canProcess st \<longleftrightarrow>
         (\<exists>f. rfp st = Some f \<and> validate (Some f) = []) \<and>
         (\<exists>g. proposal st = Some g \<and> validate (Some g) = []) \<and>
         \<not> isProcessing st))"
proof (intro conjI impI)
  show "canProcess st \<longleftrightarrow> rfp st \<noteq> None \<and> proposal st \<noteq> None \<and> \<not> isProcessing st"
    by (simp add: canProcess_def)
next
  assume "reachable st"
  then have "slotValid (rfp st)" "slotValid (proposal st)"
    using reachable_slots by simp_all
  then show "canProcess st \<longleftrightarrow>
         (\<exists>f. rfp st = Some f \<and> validate (Some f) = []) \<and>
         (\<exists>g. proposal st = Some g \<and> validate (Some g) = []) \<and>
         \<not> isProcessing st"
    by (auto simp: canProcess_def slotValid_def split: option.splits)
qed

theorem canProcess_iff_witness:
  "reachable exampleState \<and> canProcess exampleState \<and>
   (\<exists>f. rfp exampleState = Some f \<and> validate (Some f) = []) \<and>
   (\<exists>g. proposal exampleState = Some g \<and> validate (Some g) = []) \<and>
   \<not> isProcessing exampleState"
proof -
  have can: "canProcess exampleState"
    by (simp add: canProcess_def exampleState_eq initialState_def)
  from canProcess_iff [of exampleState] reachable_exampleState can show ?thesis
    by simp
qed

text \<open>
  C9.  In every reachable state each of the two slots holds no file or a file that
  \<open>validate\<close> accepts, that is one with an allowed extension and at most
  \<open>20 * 1024 * 1024\<close> bytes.  A selection handler stores no file and the message of
  \<open>validate\<close> when the file is rejected, and the file with an empty message when it is
  accepted; clearing a slot stores no file; no effect of a run changes a slot.
\<close>

theorem slots_invariant:
  "(reachable st \<longrightarrow> slotValid (rfp st) \<and> slotValid (proposal st)) \<and>
   (slotValid slot \<longleftrightarrow>
      slot = None \<or> (\<exists>f. slot = Some f \<and> extensionAllowed f \<and> size_bytes f \<le> MAX_BYTES)) \<and>
   (validate (Some f) \<noteq> [] \<longrightarrow>
      rfp (onSelectRfp (Some f) st) = None \<and>
      errRfp (onSelectRfp (Some f) st) = validate (Some f) \<and>
      proposal (onSelectProp (Some f) st) = None \<and>
      errProp (onSelectProp (Some f) st) = validate (Some f)) \<and>
   (validate (Some f) = [] \<longrightarrow>
      rfp (onSelectRfp (Some f) st) = Some f \<and> errRfp (onSelectRfp (Some f) st) = [] \<and>
      proposal (onSelectProp (Some f) st) = Some f \<and> errProp (onSelectProp (Some f) st) = []) \<and>
   rfp (onSelectRfp None st) = None \<and> proposal (onSelectProp None st) = None \<and>
   rfp (applyEffects st (take n (onProcess net st))) = rfp st \<and>
   proposal (applyEffects st (take n (onProcess net st))) = proposal st"
proof (intro conjI impI)
  show "slotValid (rfp st)" "slotValid (proposal st)" if "reachable st"
    using reachable_slots [OF that] by simp_all
  show "slotValid slot \<longleftrightarrow>
      slot = None \<or> (\<exists>f. slot = Some f \<and> extensionAllowed f \<and> size_bytes f \<le> MAX_BYTES)"
    by (cases slot) (simp_all add: slotValid_def validate_accepts_iff)
qed (simp_all add: onSelectRfp_def onSelectProp_def Let_def)

theorem slots_invariant_witness:
  "reachable exampleState \<and> slotValid (rfp exampleState) \<and> slotValid (proposal exampleState) \<and>
   validate (Some \<lparr>name = ''big.txt'', size_bytes = 20971521\<rparr>) \<noteq> [] \<and>
   rfp (onSelectRfp (Some \<lparr>name = ''big.txt'', size_bytes = 20971521\<rparr>) exampleState) = None \<and>
   errRfp (onSelectRfp (Some \<lparr>name = ''big.txt'', size_bytes = 20971521\<rparr>) exampleState)
     = MSG_BAD_FORMAT \<and>
   validate (Some exampleRfp) = [] \<and>
   rfp (onSelectRfp (Some exampleRfp) initialState) = Some exampleRfp"
proof -
  have bad: "validate (Some \<lparr>name = ''big.txt'', size_bytes = 20971521\<rparr>) = MSG_BAD_FORMAT"
    using extensionAllowed_big_txt by (simp add: validate_Some)
  from slots_invariant [of exampleState None "\<lparr>name = ''big.txt'', size_bytes = 20971521\<rparr>" 0
      exampleNetwork]
    slots_invariant [of initialState None exampleRfp 0 exampleNetwork]
    reachable_exampleState bad validate_exampleRfp MSG_BAD_FORMAT_nonempty
  show ?thesis by simp
qed

lemma applyEffects_tail:
  "message (applyEffects st (es @ [SetMessage m, SetIsProcessing b])) = m"
  "isProcessing (applyEffects st (es @ [SetIsProcessing b])) = b"
  "progress (applyEffects st (es @ [SetMessage m, SetIsProcessing b])) = progress (applyEffects st es)"
  "progress (applyEffects st (es @ [SetIsProcessing b])) = progress (applyEffects st es)"
  "result (applyEffects st (es @ [SetMessage m, SetIsProcessing b])) = result (applyEffects st es)"
  "result (applyEffects st (es @ [SetIsProcessing b])) = result (applyEffects st es)"
  by (simp_all add: applyEffects_append)

lemma onProcess_last:
  assumes "rfp st = Some r" "proposal st = Some p"
  shows "last (onProcess net st) = SetIsProcessing False"
  using assms by (simp add: onProcess_run finallyBlock_def)

lemma runProcess_not_processing:
  assumes "rfp st = Some r" "proposal st = Some p"
  shows "\<not> isProcessing (runProcess net st)"
proof -
  have "onProcess net st =
          (startBlock @ fst (tryBlock net r p) @ catchBlock (snd (tryBlock net r p)))
            @ [SetIsProcessing False]"
    using assms by (simp add: onProcess_run finallyBlock_def)
  then show ?thesis
    by (simp only: runProcess_def applyEffects_tail(2)) simp
qed

lemma upload_no_evaluate:
  assumes "uploadOne net f d off = (es, res)"
  shows "filter isEvaluate es = []"
  using uploadOne_no_evaluate [of net f d off] assms by simp

text \<open>No run sends an evaluation request unless both answers carry a non-empty \<open>txtPath\<close>.\<close>

lemma evaluation_needs_both_paths:
  assumes "rfp st = Some r" and "proposal st = Some p"
  shows "filter isEvaluate (onProcess net st) = [] \<or>
         (\<exists>u1 u2. snd (uploadOne net r RFP 0) = Resolved u1 \<and>
                  snd (uploadOne net p Proposal 40) = Resolved u2 \<and>
                  \<not> falsy (txtPath u1) \<and> \<not> falsy (txtPath u2))"
proof (cases rule: tryBlock_cases [of net r p])
  case (first_rejected es1 d)
  then have "filter isEvaluate (onProcess net st) = []"
    using assms upload_no_evaluate [OF first_rejected(1)]
    by (simp add: onProcess_run startBlock_def catchBlock_def finallyBlock_def)
  then show ?thesis ..
next
  case (second_rejected es1 u1 es2 d)
  then have "filter isEvaluate (onProcess net st) = []"
    using assms upload_no_evaluate [OF second_rejected(1)] upload_no_evaluate [OF second_rejected(2)]
    by (simp add: onProcess_run startBlock_def catchBlock_def finallyBlock_def)
  then show ?thesis ..
next
  case (not_ready es1 u1 es2 u2)
  then have "filter isEvaluate (onProcess net st) = []"
    using assms upload_no_evaluate [OF not_ready(1)] upload_no_evaluate [OF not_ready(2)]
    by (simp add: onProcess_run startBlock_def catchBlock_def finallyBlock_def)
  then show ?thesis ..
next
  case (eval_rejected es1 u1 es2 u2 d)
  then show ?thesis by simp
next
  case (success es1 u1 es2 u2 data)
  then show ?thesis by simp
qed

text \<open>
  C2.  In a run in which both uploads are answered and at least one of the two answers has
  no \<open>txtPath\<close>, the message at the end is the retry-soon advisory and the run sends no
  evaluation request.
\<close>

theorem not_ready_no_evaluation:
  assumes "rfp st = Some r" and "proposal st = Some p"
    and "upload net \<lparr>fd_file = r, fd_title = stripExt (name r), fd_docType = RFP\<rparr>
           = (evts1, Resolved u1)"
    and "upload net \<lparr>fd_file = p, fd_title = stripExt (name p), fd_docType = Proposal\<rparr>
           = (evts2, Resolved u2)"
    and "txtPath u1 = None \<or> txtPath u2 = None"
  shows "message (runProcess net st) = MSG_NOT_READY \<and>
         filter isEvaluate (onProcess net st) = [] \<and>
         length (filter isEvaluate (onProcess net st)) = 0"
proof -
  obtain es1 es2 where
    up1: "uploadOne net r RFP 0 = (es1, Resolved u1)" and
    up2: "uploadOne net p Proposal 40 = (es2, Resolved u2)"
    using uploadOne_eq [OF assms(3)] uploadOne_eq [OF assms(4)] by blast
  have guard: "falsy (txtPath u1) \<or> falsy (txtPath u2)"
    using assms(5) by (auto simp: falsy_def)
  have tb: "tryBlock net r p = (es1 @ es2 @ [SetMessage MSG_NOT_READY], Returned)"
    using up1 up2 guard by (simp add: tryBlock_def)
  have run: "onProcess net st =
               (startBlock @ es1 @ es2) @ [SetMessage MSG_NOT_READY, SetIsProcessing False]"
    using assms(1,2) tb by (simp add: onProcess_run catchBlock_def finallyBlock_def)
  have msg: "message (runProcess net st) = MSG_NOT_READY"
    unfolding runProcess_def run by (rule applyEffects_tail(1))
  have none: "filter isEvaluate (onProcess net st) = []"
    unfolding run using upload_no_evaluate [OF up1] upload_no_evaluate [OF up2]
    by (simp add: startBlock_def)
  from msg none show ?thesis by simp
qed

lemma exampleState_files:
  "rfp exampleState = Some exampleRfp" "proposal exampleState = Some exampleProposal"
  by (simp_all add: exampleState_eq)

theorem not_ready_no_evaluation_witness:
  "rfp exampleState = Some exampleRfp \<and> proposal exampleState = Some exampleProposal \<and>
   upload notReadyNetwork
     \<lparr>fd_file = exampleRfp, fd_title = stripExt (name exampleRfp), fd_docType = RFP\<rparr>
     = (exampleEvents, Resolved (exampleUploadResponse (Some ''rfp.extracted.txt''))) \<and>
   upload notReadyNetwork
     \<lparr>fd_file = exampleProposal, fd_title = stripExt (name exampleProposal),
      fd_docType = Proposal\<rparr>
     = (exampleEvents, Resolved (exampleUploadResponse None)) \<and>
   txtPath (exampleUploadResponse None) = None \<and>
   message (runProcess notReadyNetwork exampleState) = MSG_NOT_READY \<and>
   filter isEvaluate (onProcess notReadyNetwork exampleState) = []"
proof -
  have up1: "upload notReadyNetwork
     \<lparr>fd_file = exampleRfp, fd_title = stripExt (name exampleRfp), fd_docType = RFP\<rparr>
     = (exampleEvents, Resolved (exampleUploadResponse (Some ''rfp.extracted.txt'')))"
    by (simp add: notReadyNetwork_def)
  have up2: "upload notReadyNetwork
     \<lparr>fd_file = exampleProposal, fd_title = stripExt (name exampleProposal),
      fd_docType = Proposal\<rparr>
     = (exampleEvents, Resolved (exampleUploadResponse None))"
    by (simp add: notReadyNetwork_def)
  have absent: "txtPath (exampleUploadResponse (Some ''rfp.extracted.txt'')) = None \<or>
                txtPath (exampleUploadResponse None) = None"
    by (simp add: exampleUploadResponse_def)
  from not_ready_no_evaluation [OF exampleState_files up1 up2 absent]
    exampleState_files up1 up2
  show ?thesis by (simp add: exampleUploadResponse_def)
qed

lemma tryBlock_Thrown_iff:
  "snd (tryBlock net r p) = Thrown d \<longleftrightarrow>
     snd (uploadOne net r RFP 0) = Rejected d \<or>
     (\<exists>u1. snd (uploadOne net r RFP 0) = Resolved u1 \<and>
        (snd (uploadOne net p Proposal 40) = Rejected d \<or>
         (\<exists>u2. snd (uploadOne net p Proposal 40) = Resolved u2 \<and>
            \<not> falsy (txtPath u1) \<and> \<not> falsy (txtPath u2) \<and>
            evaluate net \<lparr>proposalPath = txtPath u2, rfpPath = txtPath u1,
                           guidePath = GUIDE_PATH\<rparr> = Rejected d)))"
  by (cases rule: tryBlock_cases [of net r p]) auto

text \<open>
  C8.  When a request of the run is rejected (see \<open>tryBlock_Thrown_iff\<close>), the message
  at the end is the detail of the error response when there is one and the generic failure
  message otherwise, the progress is the value it had when the error was thrown, and the
  busy flag is cleared.  The busy flag is cleared at the end of every run, however it ends:
  the last effect of a run is always \<open>setIsProcessing(false)\<close>.
\<close>

theorem error_path:
  assumes "rfp st = Some r" and "proposal st = Some p"
  shows "(snd (tryBlock net r p) = Thrown d \<longrightarrow>
            message (runProcess net st) = nullish d MSG_ERROR \<and>
            progress (runProcess net st)
              = progress (applyEffects st (startBlock @ fst (tryBlock net r p))) \<and>
            \<not> isProcessing (runProcess net st)) \<and>
         \<not> isProcessing (runProcess net st) \<and>
         last (onProcess net st) = SetIsProcessing False"
proof (intro conjI impI)
  show idle: "\<not> isProcessing (runProcess net st)"
    using assms by (rule runProcess_not_processing)
  then show "\<not> isProcessing (runProcess net st)" .
  show "last (onProcess net st) = SetIsProcessing False"
    using assms by (rule onProcess_last)
next
  assume thrown: "snd (tryBlock net r p) = Thrown d"
  have run: "onProcess net st =
               (startBlock @ fst (tryBlock net r p))
                 @ [SetMessage (nullish d MSG_ERROR), SetIsProcessing False]"
    using assms thrown by (simp add: onProcess_run catchBlock_def finallyBlock_def)
  show "message (runProcess net st) = nullish d MSG_ERROR"
    unfolding runProcess_def run by (rule applyEffects_tail(1))
  show "progress (runProcess net st)
          = progress (applyEffects st (startBlock @ fst (tryBlock net r p)))"
    unfolding runProcess_def run by (rule applyEffects_tail(3))
qed

lemma exampleProgress_eval:
  "Math_round (dbl_div (dbl_mul 512 100) 1024) = 50"
  "Math_round (dbl_div (dbl_mul 1024 100) 1024) = 100"
  "Math_floor (dbl_mul_POINT_FOUR 50) = 20"
  "Math_floor (dbl_mul_POINT_FOUR 100) = 40"
  "dbl_add 0 20 = 20" "dbl_add 0 40 = 40" "dbl_add 40 20 = 60" "dbl_add 40 40 = 80"
  by code_simp+

lemma exampleProgress:
  "onUploadProgress 0 \<lparr>loaded = Some 512, total = Some 1024\<rparr> = [SetProgress 20]"
  "onUploadProgress 0 \<lparr>loaded = Some 1024, total = Some 1024\<rparr> = [SetProgress 40]"
  "onUploadProgress 40 \<lparr>loaded = Some 512, total = Some 1024\<rparr> = [SetProgress 60]"
  "onUploadProgress 40 \<lparr>loaded = Some 1024, total = Some 1024\<rparr> = [SetProgress 80]"
  by (simp_all add: onUploadProgress_def nullish_def Let_def exampleProgress_eval)

lemma failingNetwork_tryBlock:
  "tryBlock failingNetwork exampleRfp exampleProposal =
     ([PostUpload \<lparr>fd_file = exampleRfp, fd_title = ''rfp'', fd_docType = RFP\<rparr>,
       SetProgress 20, SetProgress 40, UploadSettled RFP,
       PostUpload \<lparr>fd_file = exampleProposal, fd_title = ''draft.v2'', fd_docType = Proposal\<rparr>,
       SetProgress 60, UploadSettled Proposal],
      Thrown (Some ''disk full''))"
  by (simp add: tryBlock_def uploadOne_def failingNetwork_def exampleEvents_def exampleProgress
      exampleUploadResponse_def exampleRfp_def exampleProposal_def stripExt_def lastIndexOf_def)

theorem error_path_witness:
  "rfp exampleState = Some exampleRfp \<and> proposal exampleState = Some exampleProposal \<and>
   snd (tryBlock failingNetwork exampleRfp exampleProposal) = Thrown (Some ''disk full'') \<and>
   message (runProcess failingNetwork exampleState) = ''disk full'' \<and>
   progress (runProcess failingNetwork exampleState) = 60 \<and>
   \<not> isProcessing (runProcess failingNetwork exampleState)"
proof -
  have thrown: "snd (tryBlock failingNetwork exampleRfp exampleProposal)
                  = Thrown (Some ''disk full'')"
    by (simp add: failingNetwork_tryBlock)
  have before: "progress (applyEffects exampleState
                  (startBlock @ fst (tryBlock failingNetwork exampleRfp exampleProposal))) = 60"
    by (simp add: failingNetwork_tryBlock startBlock_def)
  from error_path [OF exampleState_files, of failingNetwork "Some ''disk full''"]
    exampleState_files thrown before
  show ?thesis by (simp add: nullish_def)
qed

lemma uploadOne_outcome:
  "snd (uploadOne net f d off)
     = snd (upload net \<lparr>fd_file = f, fd_title = stripExt (name f), fd_docType = d\<rparr>)"
  by (simp add: uploadOne_def Let_def split: prod.splits)

text \<open>
  C7.  In a successful run (both uploads answered with a non-empty \<open>txtPath\<close>, the
  evaluation answered) the requests are, in this order: the upload of the requirements file
  is sent (its progress reports use offset 0) and settles, the upload of the proposal file
  is sent (offset 40) and settles, and one evaluation request is sent, carrying both
  \<open>txtPath\<close> values and the fixed guideline path, and settles.
\<close>

theorem successful_run_order:
  assumes "rfp st = Some r" and "proposal st = Some p"
    and "upload net \<lparr>fd_file = r, fd_title = stripExt (name r), fd_docType = RFP\<rparr>
           = (evts1, Resolved u1)"
    and "upload net \<lparr>fd_file = p, fd_title = stripExt (name p), fd_docType = Proposal\<rparr>
           = (evts2, Resolved u2)"
    and "\<not> falsy (txtPath u1)" and "\<not> falsy (txtPath u2)"
    and "evaluate net \<lparr>proposalPath = txtPath u2, rfpPath = txtPath u1,
                        guidePath = GUIDE_PATH\<rparr> = Resolved data"
  shows "onProcess net st =
           startBlock
           @ [PostUpload \<lparr>fd_file = r, fd_title = stripExt (name r), fd_docType = RFP\<rparr>]
           @ concat (map (onUploadProgress 0) evts1)
           @ [UploadSettled RFP,
              PostUpload \<lparr>fd_file = p, fd_title = stripExt (name p), fd_docType = Proposal\<rparr>]
           @ concat (map (onUploadProgress 40) evts2)
           @ [UploadSettled Proposal, SetProgress 80, SetMessage MSG_ANALYZING,
              PostEvaluate \<lparr>proposalPath = txtPath u2, rfpPath = txtPath u1,
                            guidePath = ''guide/guide_reference.txt''\<rparr>,
              EvaluateSettled, SetResult (Some data), SetMessage MSG_DONE, SetProgress 100,
              SetIsProcessing False] \<and>
         filter isRequest (onProcess net st) =
           [PostUpload \<lparr>fd_file = r, fd_title = stripExt (name r), fd_docType = RFP\<rparr>,
            UploadSettled RFP,
            PostUpload \<lparr>fd_file = p, fd_title = stripExt (name p), fd_docType = Proposal\<rparr>,
            UploadSettled Proposal,
            PostEvaluate \<lparr>proposalPath = txtPath u2, rfpPath = txtPath u1,
                          guidePath = ''guide/guide_reference.txt''\<rparr>,
            EvaluateSettled] \<and>
         length (filter isEvaluate (onProcess net st)) = 1 \<and>
         (\<exists>a b. txtPath u1 = Some a \<and> a \<noteq> [] \<and> txtPath u2 = Some b \<and> b \<noteq> [])"
proof -
  have up1: "uploadOne net r RFP 0 =
      (PostUpload \<lparr>fd_file = r, fd_title = stripExt (name r), fd_docType = RFP\<rparr>
         # concat (map (onUploadProgress 0) evts1) @ [UploadSettled RFP], Resolved u1)"
    by (rule uploadOne_eq [OF assms(3)])
  have up2: "uploadOne net p Proposal 40 =
      (PostUpload \<lparr>fd_file = p, fd_title = stripExt (name p), fd_docType = Proposal\<rparr>
         # concat (map (onUploadProgress 40) evts2) @ [UploadSettled Proposal], Resolved u2)"
    by (rule uploadOne_eq [OF assms(4)])
  have tb: "tryBlock net r p =
      ((PostUpload \<lparr>fd_file = r, fd_title = stripExt (name r), fd_docType = RFP\<rparr>
         # concat (map (onUploadProgress 0) evts1) @ [UploadSettled RFP])
       @ (PostUpload \<lparr>fd_file = p, fd_title = stripExt (name p), fd_docType = Proposal\<rparr>
         # concat (map (onUploadProgress 40) evts2) @ [UploadSettled Proposal])
       @ [SetProgress 80, SetMessage MSG_ANALYZING,
          PostEvaluate \<lparr>proposalPath = txtPath u2, rfpPath = txtPath u1,
                        guidePath = GUIDE_PATH\<rparr>, EvaluateSettled]
       @ [SetResult (Some data), SetMessage MSG_DONE, SetProgress 100], Returned)"
    using assms(5,6,7) by (simp add: tryBlock_def up1 up2 Let_def)
  have run: "onProcess net st =
           startBlock
           @ [PostUpload \<lparr>fd_file = r, fd_title = stripExt (name r), fd_docType = RFP\<rparr>]
           @ concat (map (onUploadProgress 0) evts1)
           @ [UploadSettled RFP,
              PostUpload \<lparr>fd_file = p, fd_title = stripExt (name p), fd_docType = Proposal\<rparr>]
           @ concat (map (onUploadProgress 40) evts2)
           @ [UploadSettled Proposal, SetProgress 80, SetMessage MSG_ANALYZING,
              PostEvaluate \<lparr>proposalPath = txtPath u2, rfpPath = txtPath u1,
                            guidePath = ''guide/guide_reference.txt''\<rparr>,
              EvaluateSettled, SetResult (Some data), SetMessage MSG_DONE, SetProgress 100,
              SetIsProcessing False]"
    using assms(1,2) by (simp add: onProcess_run tb catchBlock_def finallyBlock_def GUIDE_PATH_def)
  have noev: "filter isEvaluate (concat (map (onUploadProgress off) evts)) = []" for off evts
    by (induction evts) (simp_all add: onUploadProgress_def Let_def)
  have reqs: "filter isRequest (onProcess net st) =
           [PostUpload \<lparr>fd_file = r, fd_title = stripExt (name r), fd_docType = RFP\<rparr>,
            UploadSettled RFP,
            PostUpload \<lparr>fd_file = p, fd_title = stripExt (name p), fd_docType = Proposal\<rparr>,
            UploadSettled Proposal,
            PostEvaluate \<lparr>proposalPath = txtPath u2, rfpPath = txtPath u1,
                          guidePath = ''guide/guide_reference.txt''\<rparr>,
            EvaluateSettled]"
    unfolding run by (simp add: startBlock_def progress_events_no_request)
  have one: "length (filter isEvaluate (onProcess net st)) = 1"
    unfolding run by (simp add: startBlock_def noev)
  have paths: "\<exists>a b. txtPath u1 = Some a \<and> a \<noteq> [] \<and> txtPath u2 = Some b \<and> b \<noteq> []"
    using assms(5,6) by (auto simp: falsy_def split: option.splits)
  from run reqs one paths show ?thesis by blast
qed

lemma exampleNetwork_onProcess:
  "onProcess exampleNetwork exampleState =
     [SetResult None, SetMessage [], SetIsProcessing True, SetProgress 0,
      PostUpload \<lparr>fd_file = exampleRfp, fd_title = ''rfp'', fd_docType = RFP\<rparr>,
      SetProgress 20, SetProgress 40, UploadSettled RFP,
      PostUpload \<lparr>fd_file = exampleProposal, fd_title = ''draft.v2'', fd_docType = Proposal\<rparr>,
      SetProgress 60, SetProgress 80, UploadSettled Proposal,
      SetProgress 80, SetMessage MSG_ANALYZING,
      PostEvaluate \<lparr>proposalPath = Some ''draft.v2.extracted.txt'',
                    rfpPath = Some ''rfp.extracted.txt'',
                    guidePath = ''guide/guide_reference.txt''\<rparr>,
      EvaluateSettled, SetResult (Some exampleAnalysis), SetMessage MSG_DONE, SetProgress 100,
      SetIsProcessing False]"
  by (simp add: onProcess_def exampleState_files startBlock_def tryBlock_def uploadOne_def
      exampleNetwork_def exampleEvents_def exampleProgress exampleUploadResponse_def
      exampleRfp_def exampleProposal_def stripExt_def lastIndexOf_def falsy_def GUIDE_PATH_def
      catchBlock_def finallyBlock_def)

theorem successful_run_order_witness:
  "rfp exampleState = Some exampleRfp \<and> proposal exampleState = Some exampleProposal \<and>
   upload exampleNetwork
     \<lparr>fd_file = exampleRfp, fd_title = stripExt (name exampleRfp), fd_docType = RFP\<rparr>
     = (exampleEvents, Resolved (exampleUploadResponse (Some ''rfp.extracted.txt''))) \<and>
   upload exampleNetwork
     \<lparr>fd_file = exampleProposal, fd_title = stripExt (name exampleProposal),
      fd_docType = Proposal\<rparr>
     = (exampleEvents, Resolved (exampleUploadResponse (Some ''draft.v2.extracted.txt''))) \<and>
   \<not> falsy (Some ''rfp.extracted.txt'') \<and> \<not> falsy (Some ''draft.v2.extracted.txt'') \<and>
   evaluate exampleNetwork
     \<lparr>proposalPath = Some ''draft.v2.extracted.txt'', rfpPath = Some ''rfp.extracted.txt'',
      guidePath = GUIDE_PATH\<rparr> = Resolved exampleAnalysis \<and>
   filter isRequest (onProcess exampleNetwork exampleState) =
     [PostUpload \<lparr>fd_file = exampleRfp, fd_title = ''rfp'', fd_docType = RFP\<rparr>,
      UploadSettled RFP,
      PostUpload \<lparr>fd_file = exampleProposal, fd_title = ''draft.v2'', fd_docType = Proposal\<rparr>,
      UploadSettled Proposal,
      PostEvaluate \<lparr>proposalPath = Some ''draft.v2.extracted.txt'',
                    rfpPath = Some ''rfp.extracted.txt'',
                    guidePath = ''guide/guide_reference.txt''\<rparr>,
      EvaluateSettled]"
proof -
  have t1: "stripExt (name exampleRfp) = ''rfp''"
    and t2: "stripExt (name exampleProposal) = ''draft.v2''"
    by (simp_all add: exampleRfp_def exampleProposal_def stripExt_def lastIndexOf_def)
  have up1: "upload exampleNetwork
     \<lparr>fd_file = exampleRfp, fd_title = stripExt (name exampleRfp), fd_docType = RFP\<rparr>
     = (exampleEvents, Resolved (exampleUploadResponse (Some ''rfp.extracted.txt'')))"
    by (simp add: exampleNetwork_def t1)
  have up2: "upload exampleNetwork
     \<lparr>fd_file = exampleProposal, fd_title = stripExt (name exampleProposal),
      fd_docType = Proposal\<rparr>
     = (exampleEvents, Resolved (exampleUploadResponse (Some ''draft.v2.extracted.txt'')))"
    by (simp add: exampleNetwork_def t2)
  have ok1: "\<not> falsy (txtPath (exampleUploadResponse (Some ''rfp.extracted.txt'')))"
    and ok2: "\<not> falsy (txtPath (exampleUploadResponse (Some ''draft.v2.extracted.txt'')))"
    by (simp_all add: exampleUploadResponse_def falsy_def)
  have ev: "evaluate exampleNetwork
     \<lparr>proposalPath = txtPath (exampleUploadResponse (Some ''draft.v2.extracted.txt'')),
      rfpPath = txtPath (exampleUploadResponse (Some ''rfp.extracted.txt'')),
      guidePath = GUIDE_PATH\<rparr> = Resolved exampleAnalysis"
    by (simp add: exampleNetwork_def)
  have "filter isRequest (onProcess exampleNetwork exampleState) =
     [PostUpload \<lparr>fd_file = exampleRfp, fd_title = ''rfp'', fd_docType = RFP\<rparr>,
      UploadSettled RFP,
      PostUpload \<lparr>fd_file = exampleProposal, fd_title = ''draft.v2'', fd_docType = Proposal\<rparr>,
      UploadSettled Proposal,
      PostEvaluate \<lparr>proposalPath = Some ''draft.v2.extracted.txt'',
                    rfpPath = Some ''rfp.extracted.txt'',
                    guidePath = ''guide/guide_reference.txt''\<rparr>,
      EvaluateSettled]"
    using successful_run_order [OF exampleState_files up1 up2 ok1 ok2 ev,
        THEN conjunct2, THEN conjunct1]
    by (simp add: exampleUploadResponse_def t1 t2)
  moreover have "\<not> falsy (Some ''rfp.extracted.txt'')"
    "\<not> falsy (Some ''draft.v2.extracted.txt'')"
    by (simp_all add: falsy_def)
  moreover have "evaluate exampleNetwork
     \<lparr>proposalPath = Some ''draft.v2.extracted.txt'', rfpPath = Some ''rfp.extracted.txt'',
      guidePath = GUIDE_PATH\<rparr> = Resolved exampleAnalysis"
    by (simp add: exampleNetwork_def)
  ultimately show ?thesis
    using exampleState_files up1 up2 by simp
qed

lemma result_congruence:
  "result s = result s' \<Longrightarrow> result (applyEffects s es) = result (applyEffects s' es)"
proof (induction es arbitrary: s s')
  case Nil
  then show ?case by simp
next
  case (Cons e es)
  have "result (applyEffect s e) = result (applyEffect s' e)"
    using Cons.prems by (cases e) simp_all
  then have "result (applyEffects (applyEffect s e) es) = result (applyEffects (applyEffect s' e) es)"
    by (rule Cons.IH)
  then show ?case
    by (simp only: applyEffects_Cons)
qed

lemma result_of_run:
  assumes "\<forall>e \<in> set es. progressOnly e"
  shows "result (applyEffects st (startBlock @ es @ rest))
           = result (applyEffects (st\<lparr>result := None\<rparr>) rest)"
proof -
  have "result (applyEffects (applyEffects st startBlock) es) = None"
    using applyEffects_progressOnly(3) [OF assms] by (simp add: startBlock_def)
  then have "result (applyEffects (applyEffects (applyEffects st startBlock) es) rest)
               = result (applyEffects (st\<lparr>result := None\<rparr>) rest)"
    by (intro result_congruence) simp
  then show ?thesis
    by (simp add: applyEffects_append)
qed

lemma result_after_handlers:
  "result (applyEffects s (rest @ catchBlock c @ finallyBlock)) = result (applyEffects s rest)"
  by (cases c) (simp_all add: applyEffects_append catchBlock_def finallyBlock_def)

lemma run_result:
  assumes "rfp st = Some r" and "proposal st = Some p"
    and "tryBlock net r p = (es @ rest, c)"
    and "\<forall>e \<in> set es. progressOnly e"
  shows "result (runProcess net st) = result (applyEffects (st\<lparr>result := None\<rparr>) rest)"
proof -
  have "runProcess net st =
          applyEffects st (startBlock @ es @ (rest @ catchBlock c @ finallyBlock))"
    using assms(1,2,3) by (simp add: runProcess_def onProcess_run)
  then have "result (runProcess net st)
               = result (applyEffects (st\<lparr>result := None\<rparr>) (rest @ catchBlock c @ finallyBlock))"
    by (simp only: result_of_run [OF assms(4)])
  then show ?thesis
    by (simp only: result_after_handlers)
qed

lemma run_outcome [consumes 2, case_names none some]:
  assumes "rfp st = Some r" and "proposal st = Some p"
  obtains "result (runProcess net st) = None"
  | u1 u2 data where "snd (tryBlock net r p) = Returned"
      and "snd (upload net \<lparr>fd_file = r, fd_title = stripExt (name r), fd_docType = RFP\<rparr>)
             = Resolved u1"
      and "snd (upload net \<lparr>fd_file = p, fd_title = stripExt (name p), fd_docType = Proposal\<rparr>)
             = Resolved u2"
      and "\<not> falsy (txtPath u1)" and "\<not> falsy (txtPath u2)"
      and "evaluate net \<lparr>proposalPath = txtPath u2, rfpPath = txtPath u1,
                          guidePath = GUIDE_PATH\<rparr> = Resolved data"
      and "result (runProcess net st) = Some data"
proof -
  have po: "\<forall>e \<in> set es. progressOnly e" if "uploadOne net f dt off = (es, res)"
    for es f dt off res
    using uploadOne_progressOnly [of net f dt off] that by simp
  have out: "snd (upload net \<lparr>fd_file = f, fd_title = stripExt (name f), fd_docType = dt\<rparr>) = res"
    if "uploadOne net f dt off = (es, res)" for es f dt off res
    using uploadOne_outcome [of net f dt off] that by simp
  show ?thesis
  proof (cases rule: tryBlock_cases [of net r p])
    case (first_rejected es1 d')
    have tb: "tryBlock net r p = (es1 @ [], Thrown d')"
      using first_rejected(2) by simp
    have "result (runProcess net st) = None"
      using run_result [OF assms tb po [OF first_rejected(1)]] by simp
    then show ?thesis by (rule that(1))
  next
    case (second_rejected es1 u1 es2 d')
    have both: "\<forall>e \<in> set (es1 @ es2). progressOnly e"
      using po [OF second_rejected(1)] po [OF second_rejected(2)] by auto
    have tb: "tryBlock net r p = ((es1 @ es2) @ [], Thrown d')"
      using second_rejected(3) by simp
    have "result (runProcess net st) = None"
      using run_result [OF assms tb both] by simp
    then show ?thesis by (rule that(1))
  next
    case (not_ready es1 u1 es2 u2)
    have both: "\<forall>e \<in> set (es1 @ es2). progressOnly e"
      using po [OF not_ready(1)] po [OF not_ready(2)] by auto
    have tb: "tryBlock net r p = ((es1 @ es2) @ [SetMessage MSG_NOT_READY], Returned)"
      using not_ready(4) by simp
    have "result (runProcess net st) = None"
      using run_result [OF assms tb both] by simp
    then show ?thesis by (rule that(1))
  next
    case (eval_rejected es1 u1 es2 u2 d')
    have both: "\<forall>e \<in> set (es1 @ es2). progressOnly e"
      using po [OF eval_rejected(1)] po [OF eval_rejected(2)] by auto
    have tb: "tryBlock net r p =
            ((es1 @ es2) @ [SetProgress 80, SetMessage MSG_ANALYZING,
                PostEvaluate \<lparr>proposalPath = txtPath u2, rfpPath = txtPath u1,
                              guidePath = GUIDE_PATH\<rparr>, EvaluateSettled], Thrown d')"
      using eval_rejected(6) by simp
    have "result (runProcess net st) = None"
      using run_result [OF assms tb both] by simp
    then show ?thesis by (rule that(1))
  next
    case (success es1 u1 es2 u2 data')
    have both: "\<forall>e \<in> set (es1 @ es2). progressOnly e"
      using po [OF success(1)] po [OF success(2)] by auto
    have tb: "tryBlock net r p =
            ((es1 @ es2) @ [SetProgress 80, SetMessage MSG_ANALYZING,
                PostEvaluate \<lparr>proposalPath = txtPath u2, rfpPath = txtPath u1,
                              guidePath = GUIDE_PATH\<rparr>, EvaluateSettled,
                SetResult (Some data'), SetMessage MSG_DONE, SetProgress 100], Returned)"
      using success(6) by simp
    have res: "result (runProcess net st) = Some data'"
      using run_result [OF assms tb both] by simp
    have ret: "snd (tryBlock net r p) = Returned"
      using success(6) by simp
    show ?thesis
      using that(2) [OF ret out [OF success(1)] out [OF success(2)] success(3,4,5) res] .
  qed
qed

text \<open>
  C10.  The first effect of a run clears the stored result.  A run that ends with a thrown
  error, or in which an upload answer lacks its \<open>txtPath\<close>, leaves no result stored.  A
  result is stored at the end of a run only when both uploads were answered with a
  \<open>txtPath\<close> and the evaluation request was answered, and it is that answer.
\<close>

theorem result_lifecycle:
  assumes "rfp st = Some r" and "proposal st = Some p"
  shows "(\<exists>es. onProcess net st = SetResult None # es) \<and>
         (snd (tryBlock net r p) = Thrown d \<longrightarrow> result (runProcess net st) = None) \<and>
         (snd (upload net \<lparr>fd_file = r, fd_title = stripExt (name r), fd_docType = RFP\<rparr>)
            = Resolved v1 \<and>
          snd (upload net \<lparr>fd_file = p, fd_title = stripExt (name p), fd_docType = Proposal\<rparr>)
            = Resolved v2 \<and>
          (falsy (txtPath v1) \<or> falsy (txtPath v2)) \<longrightarrow> result (runProcess net st) = None) \<and>
         (result (runProcess net st) = Some data \<longrightarrow>
            (\<exists>u1 u2.
               snd (upload net \<lparr>fd_file = r, fd_title = stripExt (name r), fd_docType = RFP\<rparr>)
                 = Resolved u1 \<and>
               snd (upload net \<lparr>fd_file = p, fd_title = stripExt (name p), fd_docType = Proposal\<rparr>)
                 = Resolved u2 \<and>
               \<not> falsy (txtPath u1) \<and> \<not> falsy (txtPath u2) \<and>
               evaluate net \<lparr>proposalPath = txtPath u2, rfpPath = txtPath u1,
                              guidePath = GUIDE_PATH\<rparr> = Resolved data))"
proof -
  have first: "\<exists>es. onProcess net st = SetResult None # es"
    using assms by (simp add: onProcess_run startBlock_def)
  from assms show ?thesis
  proof (cases rule: run_outcome [where net = net])
    case none
    with first show ?thesis by simp
  next
    case (some u1 u2 data')
    have thrown: "snd (tryBlock net r p) = Thrown d \<longrightarrow> result (runProcess net st) = None"
      using some(1) by simp
    have guard: "snd (upload net \<lparr>fd_file = r, fd_title = stripExt (name r), fd_docType = RFP\<rparr>)
            = Resolved v1 \<and>
          snd (upload net \<lparr>fd_file = p, fd_title = stripExt (name p), fd_docType = Proposal\<rparr>)
            = Resolved v2 \<and>
          (falsy (txtPath v1) \<or> falsy (txtPath v2)) \<longrightarrow> result (runProcess net st) = None"
      using some(2,3,4,5) by auto
    have stored: "result (runProcess net st) = Some data \<longrightarrow>
            (\<exists>u1 u2.
               snd (upload net \<lparr>fd_file = r, fd_title = stripExt (name r), fd_docType = RFP\<rparr>)
                 = Resolved u1 \<and>
               snd (upload net \<lparr>fd_file = p, fd_title = stripExt (name p), fd_docType = Proposal\<rparr>)
                 = Resolved u2 \<and>
               \<not> falsy (txtPath u1) \<and> \<not> falsy (txtPath u2) \<and>
               evaluate net \<lparr>proposalPath = txtPath u2, rfpPath = txtPath u1,
                              guidePath = GUIDE_PATH\<rparr> = Resolved data)"
    proof
      assume "result (runProcess net st) = Some data"
      with some(7) have "data' = data" by simp
      with some(2,3,4,5,6) show "\<exists>u1 u2.
               snd (upload net \<lparr>fd_file = r, fd_title = stripExt (name r), fd_docType = RFP\<rparr>)
                 = Resolved u1 \<and>
               snd (upload net \<lparr>fd_file = p, fd_title = stripExt (name p), fd_docType = Proposal\<rparr>)
                 = Resolved u2 \<and>
               \<not> falsy (txtPath u1) \<and> \<not> falsy (txtPath u2) \<and>
               evaluate net \<lparr>proposalPath = txtPath u2, rfpPath = txtPath u1,
                              guidePath = GUIDE_PATH\<rparr> = Resolved data"
        by (intro exI [of _ u1] exI [of _ u2]) simp
    qed
    from first thrown guard stored show ?thesis by (intro conjI)
  qed
qed

theorem result_lifecycle_witness:
  "rfp finishedState = Some exampleRfp \<and> proposal finishedState = Some exampleProposal \<and>
   result finishedState = Some exampleAnalysis \<and>
   snd (tryBlock failingNetwork exampleRfp exampleProposal) = Thrown (Some ''disk full'') \<and>
   result (runProcess failingNetwork finishedState) = None"
proof -
  have files: "rfp finishedState = Some exampleRfp" "proposal finishedState = Some exampleProposal"
    by (simp_all add: finishedState_def runProcess_def exampleState_files)
  have before: "result finishedState = Some exampleAnalysis"
    by (simp add: finishedState_def runProcess_def exampleNetwork_onProcess)
  have thrown: "snd (tryBlock failingNetwork exampleRfp exampleProposal)
                  = Thrown (Some ''disk full'')"
    by (simp add: failingNetwork_tryBlock)
  from result_lifecycle [OF files, of failingNetwork "Some ''disk full''",
      THEN conjunct2, THEN conjunct1] thrown
  have "result (runProcess failingNetwork finishedState) = None"
    by simp
  with files before thrown show ?thesis by simp
qed

end
